theory Spec2Isabelle
  imports Complex_Main
begin

section \<open>The persisted schema\<close>

text \<open>
  The five tables of the schema file. A uuid is a string; a timestamp is the number of
  milliseconds since the epoch, so the ISO string a client sends and the Date the server
  builds from it are the same value. The column \<open>created_at\<close> (filled by the database,
  read by nothing) is left out. A table is the list of its rows in insertion order.
\<close>

type_synonym uuid = string
type_synonym timestamp = int

record user_row =
  u_id :: uuid
  u_username :: string
  u_password :: string

record routine_row =
  r_id :: uuid
  r_user_id :: uuid
  r_name :: string

record exercise_row =
  e_id :: uuid
  e_routine_id :: uuid
  e_name :: string
  e_planned_sets :: int
  e_order_index :: int

record workout_row =
  w_id :: uuid
  w_user_id :: uuid
  w_routine_id :: "uuid option"
  w_routine_name :: string
  w_start_time :: timestamp
  w_end_time :: "timestamp option"

record set_row =
  s_id :: uuid
  s_workout_id :: uuid
  s_exercise_name :: string
  s_weight :: rat
  s_reps :: int
  s_rpe :: int
  s_set_number :: int

record database =
  users :: "user_row list"
  routines :: "routine_row list"
  routine_exercises :: "exercise_row list"
  workouts :: "workout_row list"
  workout_sets :: "set_row list"

text \<open>The bodies of the requests that insert a row.\<close>

record insert_user =
  iu_username :: string
  iu_password :: string

record insert_routine_exercise =
  ie_routine_id :: uuid
  ie_name :: string
  ie_planned_sets :: int
  ie_order_index :: int

record insert_workout =
  iw_routine_id :: "uuid option"
  iw_routine_name :: string
  iw_start_time :: timestamp
  iw_end_time :: "timestamp option"

text \<open>
  The weight in the body of a set is a JSON number, or a JSON string, which spells a
  decimal number or does not.
\<close>

datatype json_weight = Number rat | Decimal_string rat | Other_string string

record insert_workout_set =
  is_workout_id :: uuid
  is_exercise_name :: string
  is_weight :: json_weight
  is_reps :: int
  is_rpe :: int
  is_set_number :: int

text \<open>
  A field of a JSON body: missing, \<open>null\<close>, or a value. The PATCH route reads
  \<open>req.body\<close> unvalidated and hands all of it to the update, so its body is any part of
  a workout: each column missing, \<open>null\<close> or given. (\<open>created_at\<close> is a column the rows
  of the model leave out; a body that carries it still has a value to set.)
\<close>

datatype 'a json_field = Absent | Null | Given 'a

record workout_patch =
  p_id :: "uuid json_field"
  p_user_id :: "uuid json_field"
  p_routine_id :: "uuid json_field"
  p_routine_name :: "string json_field"
  p_start_time :: "timestamp json_field"
  p_end_time :: "timestamp json_field"
  p_created_at :: "timestamp json_field"

text \<open>The body \<open>{ end_time: t }\<close>.\<close>

definition end_time_only :: "timestamp \<Rightarrow> workout_patch" where
  "end_time_only t =
     \<lparr>p_id = Absent, p_user_id = Absent, p_routine_id = Absent, p_routine_name = Absent,
      p_start_time = Absent, p_end_time = Given t, p_created_at = Absent\<rparr>"

datatype store_error = Store_error

subsection \<open>Column types and constraints\<close>

definition int4 :: "int \<Rightarrow> bool" where
  "int4 n = (- 2147483648 \<le> n \<and> n \<le> 2147483647)"

text \<open>\<open>decimal(5, 2)\<close>: rounded to two places, half away from zero; four or more
  digits before the point overflow.\<close>

definition numeric_5_2 :: "rat \<Rightarrow> rat option" where
  "numeric_5_2 x =
     (let c = (if 0 \<le> x then \<lfloor>x * 100 + 1 / 2\<rfloor> else - \<lfloor>- x * 100 + 1 / 2\<rfloor>)
      in if \<bar>c\<bar> < 100000 then Some (of_int c / 100) else None)"

subsection \<open>DatabaseStorage\<close>

text \<open>
  Every method is one statement. A statement that violates a constraint of the schema
  (primary key, unique username, foreign key, column range) throws; the uuid that
  \<open>defaultRandom()\<close> draws for a new row is an argument.
\<close>

definition getUserByUsername :: "string \<Rightarrow> database \<Rightarrow> user_row option" where
  "getUserByUsername name d =
     (case filter (\<lambda>u. u_username u = name) (users d) of [] \<Rightarrow> None | u # _ \<Rightarrow> Some u)"

definition createUser ::
  "uuid \<Rightarrow> string \<Rightarrow> insert_user \<Rightarrow> database \<Rightarrow> store_error + user_row \<times> database" where
  "createUser new hashedPassword user d =
     (let row = \<lparr>u_id = new, u_username = iu_username user, u_password = hashedPassword\<rparr>
      in if new \<in> set (map u_id (users d)) \<or> iu_username user \<in> set (map u_username (users d))
         then Inl Store_error
         else Inr (row, d\<lparr>users := users d @ [row]\<rparr>))"

definition getRoutinesByUserId :: "uuid \<Rightarrow> database \<Rightarrow> routine_row list" where
  "getRoutinesByUserId userId d = filter (\<lambda>r. r_user_id r = userId) (routines d)"

definition createRoutine ::
  "uuid \<Rightarrow> uuid \<Rightarrow> string \<Rightarrow> database \<Rightarrow> store_error + routine_row \<times> database" where
  "createRoutine new userId name d =
     (let row = \<lparr>r_id = new, r_user_id = userId, r_name = name\<rparr>
      in if new \<in> set (map r_id (routines d)) \<or> userId \<notin> set (map u_id (users d))
         then Inl Store_error
         else Inr (row, d\<lparr>routines := routines d @ [row]\<rparr>))"

text \<open>
  Deleting routines takes their exercises with them (\<open>onDelete: cascade\<close>) and clears
  the back-reference of the workouts run from them (\<open>onDelete: set null\<close>).
\<close>

definition deleteRoutine :: "uuid \<Rightarrow> uuid \<Rightarrow> database \<Rightarrow> database" where
  "deleteRoutine routineId userId d =
     (let hit = (\<lambda>r. r_id r = routineId \<and> r_user_id r = userId);
          gone = set (map r_id (filter hit (routines d)))
      in d\<lparr>routines := filter (\<lambda>r. \<not> hit r) (routines d),
            routine_exercises := filter (\<lambda>e. e_routine_id e \<notin> gone) (routine_exercises d),
            workouts := map (\<lambda>w. case w_routine_id w of
                                     None \<Rightarrow> w
                                   | Some r \<Rightarrow> if r \<in> gone then w\<lparr>w_routine_id := None\<rparr> else w)
                            (workouts d)\<rparr>)"

definition getRoutineExercises :: "uuid \<Rightarrow> database \<Rightarrow> exercise_row list" where
  "getRoutineExercises routineId d =
     filter (\<lambda>e. e_routine_id e = routineId) (routine_exercises d)"

definition createRoutineExercise ::
  "uuid \<Rightarrow> insert_routine_exercise \<Rightarrow> database \<Rightarrow> store_error + exercise_row \<times> database" where
  "createRoutineExercise new exercise d =
     (let row = \<lparr>e_id = new, e_routine_id = ie_routine_id exercise, e_name = ie_name exercise,
                 e_planned_sets = ie_planned_sets exercise,
                 e_order_index = ie_order_index exercise\<rparr>
      in if new \<in> set (map e_id (routine_exercises d))
            \<or> ie_routine_id exercise \<notin> set (map r_id (routines d))
            \<or> \<not> int4 (ie_planned_sets exercise) \<or> \<not> int4 (ie_order_index exercise)
         then Inl Store_error
         else Inr (row, d\<lparr>routine_exercises := routine_exercises d @ [row]\<rparr>))"

definition deleteRoutineExercise :: "uuid \<Rightarrow> database \<Rightarrow> database" where
  "deleteRoutineExercise exerciseId d =
     d\<lparr>routine_exercises := filter (\<lambda>e. e_id e \<noteq> exerciseId) (routine_exercises d)\<rparr>"

definition getWorkoutsByUserId :: "uuid \<Rightarrow> database \<Rightarrow> workout_row list" where
  "getWorkoutsByUserId userId d = filter (\<lambda>w. w_user_id w = userId) (workouts d)"

definition createWorkout ::
  "uuid \<Rightarrow> uuid \<Rightarrow> insert_workout \<Rightarrow> database \<Rightarrow> store_error + workout_row \<times> database" where
  "createWorkout new userId workout d =
     (let row = \<lparr>w_id = new, w_user_id = userId, w_routine_id = iw_routine_id workout,
                 w_routine_name = iw_routine_name workout,
                 w_start_time = iw_start_time workout, w_end_time = iw_end_time workout\<rparr>
      in if new \<in> set (map w_id (workouts d)) \<or> userId \<notin> set (map u_id (users d))
            \<or> (case iw_routine_id workout of
                  None \<Rightarrow> False
                | Some r \<Rightarrow> r \<notin> set (map r_id (routines d)))
         then Inl Store_error
         else Inr (row, d\<lparr>workouts := workouts d @ [row]\<rparr>))"

text \<open>
  \<open>update workouts set ... where id = ? and user_id = ? returning *\<close>, with every
  column the body carries in the \<open>set\<close>; the result is \<open>result[0]\<close>, undefined when no
  row matched. The statement throws when the body carries no column at all, when a row
  it rewrites would break a constraint of the schema (\<open>null\<close> in a column that is
  \<open>notNull\<close>, a primary key that another row has, a user or a routine that is not
  there), and when it renames a workout that sets refer to.
\<close>

definition set_column :: "'a json_field \<Rightarrow> 'a \<Rightarrow> 'a" where
  "set_column field old = (case field of Given new \<Rightarrow> new | _ \<Rightarrow> old)"

definition set_nullable :: "'a json_field \<Rightarrow> 'a option \<Rightarrow> 'a option" where
  "set_nullable field old =
     (case field of Absent \<Rightarrow> old | Null \<Rightarrow> None | Given new \<Rightarrow> Some new)"

definition set_columns :: "workout_patch \<Rightarrow> workout_row \<Rightarrow> workout_row" where
  "set_columns updates w =
     \<lparr>w_id = set_column (p_id updates) (w_id w),
      w_user_id = set_column (p_user_id updates) (w_user_id w),
      w_routine_id = set_nullable (p_routine_id updates) (w_routine_id w),
      w_routine_name = set_column (p_routine_name updates) (w_routine_name w),
      w_start_time = set_column (p_start_time updates) (w_start_time w),
      w_end_time = set_nullable (p_end_time updates) (w_end_time w)\<rparr>"

definition no_values_to_set :: "workout_patch \<Rightarrow> bool" where
  "no_values_to_set updates =
     (p_id updates = Absent \<and> p_user_id updates = Absent \<and> p_routine_id updates = Absent
      \<and> p_routine_name updates = Absent \<and> p_start_time updates = Absent
      \<and> p_end_time updates = Absent \<and> p_created_at updates = Absent)"

definition breaks_constraint :: "uuid \<Rightarrow> workout_patch \<Rightarrow> database \<Rightarrow> bool" where
  "breaks_constraint workoutId updates d =
     (p_id updates = Null \<or> p_user_id updates = Null \<or> p_routine_name updates = Null
      \<or> p_start_time updates = Null
      \<or> (case p_id updates of
            Given new \<Rightarrow>
              new \<noteq> workoutId
              \<and> (new \<in> set (map w_id (workouts d))
                   \<or> workoutId \<in> set (map s_workout_id (workout_sets d)))
          | _ \<Rightarrow> False)
      \<or> (case p_user_id updates of
            Given u \<Rightarrow> u \<notin> set (map u_id (users d))
          | _ \<Rightarrow> False)
      \<or> (case p_routine_id updates of
            Given r \<Rightarrow> r \<notin> set (map r_id (routines d))
          | _ \<Rightarrow> False))"

definition updateWorkout ::
  "uuid \<Rightarrow> uuid \<Rightarrow> workout_patch \<Rightarrow> database
     \<Rightarrow> store_error + workout_row option \<times> database" where
  "updateWorkout workoutId userId updates d =
     (let hit = (\<lambda>w. w_id w = workoutId \<and> w_user_id w = userId)
      in if no_values_to_set updates then Inl Store_error
         else (case filter hit (workouts d) of
                 [] \<Rightarrow> Inr (None, d)
               | w # _ \<Rightarrow>
                   if breaks_constraint workoutId updates d then Inl Store_error
                   else Inr (Some (set_columns updates w),
                             d\<lparr>workouts := map (\<lambda>w. if hit w then set_columns updates w else w)
                                               (workouts d)\<rparr>)))"

definition getWorkoutSets :: "uuid \<Rightarrow> database \<Rightarrow> set_row list" where
  "getWorkoutSets workoutId d = filter (\<lambda>s. s_workout_id s = workoutId) (workout_sets d)"

text \<open>\<open>weight: workoutSet.weight.toString()\<close>: the column reads the decimal number the
  text spells, and the statement throws when it spells none.\<close>

definition createWorkoutSet ::
  "uuid \<Rightarrow> insert_workout_set \<Rightarrow> database \<Rightarrow> store_error + set_row \<times> database" where
  "createWorkoutSet new workoutSet d =
     (case (case is_weight workoutSet of
              Number x \<Rightarrow> numeric_5_2 x
            | Decimal_string x \<Rightarrow> numeric_5_2 x
            | Other_string other \<Rightarrow> None) of
        None \<Rightarrow> Inl Store_error
      | Some weight \<Rightarrow>
          (let row = \<lparr>s_id = new, s_workout_id = is_workout_id workoutSet,
                      s_exercise_name = is_exercise_name workoutSet, s_weight = weight,
                      s_reps = is_reps workoutSet, s_rpe = is_rpe workoutSet,
                      s_set_number = is_set_number workoutSet\<rparr>
           in if new \<in> set (map s_id (workout_sets d))
                 \<or> is_workout_id workoutSet \<notin> set (map w_id (workouts d))
                 \<or> \<not> int4 (is_reps workoutSet) \<or> \<not> int4 (is_rpe workoutSet)
                 \<or> \<not> int4 (is_set_number workoutSet)
              then Inl Store_error
              else Inr (row, d\<lparr>workout_sets := workout_sets d @ [row]\<rparr>)))"

definition deleteWorkoutSet :: "uuid \<Rightarrow> database \<Rightarrow> database" where
  "deleteWorkoutSet setId d =
     d\<lparr>workout_sets := filter (\<lambda>s. s_id s \<noteq> setId) (workout_sets d)\<rparr>"

section \<open>The server\<close>

subsection \<open>What a request finds outside the program\<close>

text \<open>
  One record per request, holding what the code draws from outside itself while it
  makes and serves the request: whether the request arrives, whether its response comes
  back, whether the insert schema accepts what the model leaves open of the body (the
  form of a uuid), whether the database driver runs the statement, the uuid and the
  random digits drawn, the server clock, and what bcrypt answers.
\<close>

record call_env =
  reachable :: bool
  answered :: bool
  body_valid :: bool
  store_up :: bool
  gen_uuid :: uuid
  random36 :: string
  now_ms :: nat
  bcrypt_hash :: string
  bcrypt_compare :: bool

record session_user =
  su_id :: uuid
  su_username :: string

record server =
  sessions :: "string \<rightharpoonup> session_user"
  db :: database

datatype json_body =
    Err string
  | Success
  | Auth_ok session_user string
  | Me session_user
  | Routine_list "routine_row list"
  | Routine_one routine_row
  | Exercise_list "exercise_row list"
  | Exercise_one exercise_row
  | Workout_list "workout_row list"
  | Workout_one workout_row
  | Set_list "set_row list"
  | Set_one set_row
  | No_body

type_synonym response = "nat \<times> json_body"

subsection \<open>Session tokens\<close>

definition digit36 :: "nat \<Rightarrow> char" where
  "digit36 d = ''0123456789abcdefghijklmnopqrstuvwxyz'' ! d"

fun base36 :: "nat \<Rightarrow> string" where
  "base36 n = (if n < 36 then [digit36 n] else base36 (n div 36) @ [digit36 (n mod 36)])"

declare base36.simps [simp del]

text \<open>\<open>Math.random().toString(36).substring(2) + Date.now().toString(36)\<close>\<close>

definition generateSessionId :: "call_env \<Rightarrow> string" where
  "generateSessionId e = random36 e @ base36 (now_ms e)"

definition authenticateUser ::
  "(string \<rightharpoonup> session_user) \<Rightarrow> string option \<Rightarrow> response + session_user" where
  "authenticateUser ss header =
     (case header of
        None \<Rightarrow> Inl (401, Err ''Not authenticated'')
      | Some sessionId \<Rightarrow>
          if sessionId = [] then Inl (401, Err ''Not authenticated'')
          else (case ss sessionId of
                  None \<Rightarrow> Inl (401, Err ''Not authenticated'')
                | Some u \<Rightarrow> Inr u))"

subsection \<open>Routes\<close>

datatype request =
    POST_auth_signup insert_user
  | POST_auth_signin string string
  | POST_auth_signout
  | GET_auth_me
  | GET_routines
  | POST_routines string
  | DELETE_routines uuid
  | GET_routines_exercises uuid
  | POST_routine_exercises insert_routine_exercise
  | DELETE_routine_exercises uuid
  | GET_workouts
  | POST_workouts insert_workout
  | PATCH_workouts uuid workout_patch
  | GET_workouts_sets uuid
  | POST_workout_sets insert_workout_set
  | DELETE_workout_sets uuid

definition open_session :: "call_env \<Rightarrow> user_row \<Rightarrow> server \<Rightarrow> response \<times> server" where
  "open_session e user s =
     (let sessionId = generateSessionId e;
          u = \<lparr>su_id = u_id user, su_username = u_username user\<rparr>
      in ((200, Auth_ok u sessionId), s\<lparr>sessions := (sessions s)(sessionId \<mapsto> u)\<rparr>))"

definition signup :: "call_env \<Rightarrow> insert_user \<Rightarrow> server \<Rightarrow> response \<times> server" where
  "signup e userData s =
     (if \<not> body_valid e \<or> \<not> store_up e then ((400, Err ''Invalid user data''), s)
      else (case getUserByUsername (iu_username userData) (db s) of
              Some existingUser \<Rightarrow> ((400, Err ''Username already exists''), s)
            | None \<Rightarrow>
                (case createUser (gen_uuid e) (bcrypt_hash e) userData (db s) of
                   Inl err \<Rightarrow> ((400, Err ''Invalid user data''), s)
                 | Inr (user, d) \<Rightarrow> open_session e user (s\<lparr>db := d\<rparr>))))"

definition signin :: "call_env \<Rightarrow> string \<Rightarrow> string \<Rightarrow> server \<Rightarrow> response \<times> server" where
  "signin e username password s =
     (if \<not> store_up e then ((500, Err ''Internal server error''), s)
      else (case getUserByUsername username (db s) of
              None \<Rightarrow> ((401, Err ''Invalid credentials''), s)
            | Some user \<Rightarrow>
                if \<not> bcrypt_compare e then ((401, Err ''Invalid credentials''), s)
                else open_session e user s))"

definition signout :: "string option \<Rightarrow> server \<Rightarrow> response \<times> server" where
  "signout header s =
     ((200, Success),
      (case header of
         None \<Rightarrow> s
       | Some sessionId \<Rightarrow>
           if sessionId = [] then s else s\<lparr>sessions := (sessions s)(sessionId := None)\<rparr>))"

text \<open>
  \<open>insertWorkoutSetSchema\<close> is generated from the table. The column \<open>weight\<close> is a
  \<open>decimal\<close>, whose values are strings: the schema takes a string there and throws on a
  number.
\<close>

definition insertWorkoutSetSchema :: "insert_workout_set \<Rightarrow> bool" where
  "insertWorkoutSetSchema body = (case is_weight body of Number x \<Rightarrow> False | _ \<Rightarrow> True)"

text \<open>A route registered with the \<open>authenticateUser\<close> middleware runs its handler
  only with the user the middleware resolved.\<close>

definition behind_auth ::
  "server \<Rightarrow> string option \<Rightarrow> (session_user \<Rightarrow> response \<times> server) \<Rightarrow> response \<times> server" where
  "behind_auth s header handler =
     (case authenticateUser (sessions s) header of
        Inl refusal \<Rightarrow> (refusal, s)
      | Inr u \<Rightarrow> handler u)"

text \<open>The application: one request, with its \<open>x-session-id\<close> header, against the
  server's state.\<close>

fun handle :: "call_env \<Rightarrow> string option \<Rightarrow> request \<Rightarrow> server \<Rightarrow> response \<times> server" where
  "handle e header (POST_auth_signup userData) s = signup e userData s"
| "handle e header (POST_auth_signin username password) s = signin e username password s"
| "handle e header POST_auth_signout s = signout header s"
| "handle e header GET_auth_me s = behind_auth s header (\<lambda>u. ((200, Me u), s))"
| "handle e header GET_routines s = behind_auth s header (\<lambda>u.
     if store_up e then ((200, Routine_list (getRoutinesByUserId (su_id u) (db s))), s)
     else ((500, Err ''Internal server error''), s))"
| "handle e header (POST_routines name) s = behind_auth s header (\<lambda>u.
     if \<not> body_valid e \<or> \<not> store_up e then ((400, Err ''Invalid routine data''), s)
     else (case createRoutine (gen_uuid e) (su_id u) name (db s) of
             Inl err \<Rightarrow> ((400, Err ''Invalid routine data''), s)
           | Inr (routine, d) \<Rightarrow> ((200, Routine_one routine), s\<lparr>db := d\<rparr>)))"
| "handle e header (DELETE_routines routineId) s = behind_auth s header (\<lambda>u.
     if store_up e then ((200, Success), s\<lparr>db := deleteRoutine routineId (su_id u) (db s)\<rparr>)
     else ((500, Err ''Internal server error''), s))"
| "handle e header (GET_routines_exercises routineId) s = behind_auth s header (\<lambda>u.
     if store_up e then ((200, Exercise_list (getRoutineExercises routineId (db s))), s)
     else ((500, Err ''Internal server error''), s))"
| "handle e header (POST_routine_exercises exerciseData) s = behind_auth s header (\<lambda>u.
     if \<not> body_valid e \<or> \<not> store_up e then ((400, Err ''Invalid exercise data''), s)
     else (case createRoutineExercise (gen_uuid e) exerciseData (db s) of
             Inl err \<Rightarrow> ((400, Err ''Invalid exercise data''), s)
           | Inr (exercise, d) \<Rightarrow> ((200, Exercise_one exercise), s\<lparr>db := d\<rparr>)))"
| "handle e header (DELETE_routine_exercises exerciseId) s = behind_auth s header (\<lambda>u.
     if store_up e then ((200, Success), s\<lparr>db := deleteRoutineExercise exerciseId (db s)\<rparr>)
     else ((500, Err ''Internal server error''), s))"
| "handle e header GET_workouts s = behind_auth s header (\<lambda>u.
     if store_up e then ((200, Workout_list (getWorkoutsByUserId (su_id u) (db s))), s)
     else ((500, Err ''Internal server error''), s))"
| "handle e header (POST_workouts workoutData) s = behind_auth s header (\<lambda>u.
     if \<not> body_valid e \<or> \<not> store_up e then ((400, Err ''Invalid workout data''), s)
     else (case createWorkout (gen_uuid e) (su_id u) workoutData (db s) of
             Inl err \<Rightarrow> ((400, Err ''Invalid workout data''), s)
           | Inr (workout, d) \<Rightarrow> ((200, Workout_one workout), s\<lparr>db := d\<rparr>)))"
| "handle e header (PATCH_workouts workoutId updates) s = behind_auth s header (\<lambda>u.
     if \<not> store_up e then ((500, Err ''Internal server error''), s)
     else (case updateWorkout workoutId (su_id u) updates (db s) of
             Inl err \<Rightarrow> ((500, Err ''Internal server error''), s)
           | Inr (None, d) \<Rightarrow> ((200, No_body), s\<lparr>db := d\<rparr>)
           | Inr (Some workout, d) \<Rightarrow> ((200, Workout_one workout), s\<lparr>db := d\<rparr>)))"
| "handle e header (GET_workouts_sets workoutId) s = behind_auth s header (\<lambda>u.
     if store_up e then ((200, Set_list (getWorkoutSets workoutId (db s))), s)
     else ((500, Err ''Internal server error''), s))"
| "handle e header (POST_workout_sets setData) s = behind_auth s header (\<lambda>u.
     if \<not> body_valid e \<or> \<not> insertWorkoutSetSchema setData \<or> \<not> store_up e
     then ((400, Err ''Invalid set data''), s)
     else (case createWorkoutSet (gen_uuid e) setData (db s) of
             Inl err \<Rightarrow> ((400, Err ''Invalid set data''), s)
           | Inr (workoutSet, d) \<Rightarrow> ((200, Set_one workoutSet), s\<lparr>db := d\<rparr>)))"
| "handle e header (DELETE_workout_sets setId) s = behind_auth s header (\<lambda>u.
     if store_up e then ((200, Success), s\<lparr>db := deleteWorkoutSet setId (db s)\<rparr>)
     else ((500, Err ''Internal server error''), s))"

text \<open>The routes registered with the middleware: all but the three that open and
  close sessions.\<close>

fun authenticated :: "request \<Rightarrow> bool" where
  "authenticated (POST_auth_signup userData) = False"
| "authenticated (POST_auth_signin username password) = False"
| "authenticated POST_auth_signout = False"
| "authenticated rq = True"

text \<open>A sequence of requests, each with its own environment and header.\<close>

fun serve :: "(call_env \<times> string option \<times> request) list \<Rightarrow> server \<Rightarrow> server" where
  "serve [] s = s"
| "serve ((e, header, rq) # rest) s = serve rest (snd (handle e header rq s))"

section \<open>The client\<close>

subsection \<open>ApiClient\<close>

datatype api_error = Network_error | Request_failed string | Invalid_json

text \<open>
  \<open>request\<close>: the header is set when the stored session id is truthy; \<open>fetch\<close> rejects
  when the request does not arrive or its response does not come back; a status outside
  2xx and a body that is not JSON both throw.
\<close>

definition session_header :: "string option \<Rightarrow> string option" where
  "session_header sessionId =
     (case sessionId of None \<Rightarrow> None | Some t \<Rightarrow> if t = [] then None else Some t)"

definition request ::
  "call_env \<Rightarrow> string option \<Rightarrow> request \<Rightarrow> server \<Rightarrow> (api_error + json_body) \<times> server" where
  "request e sessionId rq s =
     (if \<not> reachable e then (Inl Network_error, s)
      else (case handle e (session_header sessionId) rq s of
              ((status, body), s') \<Rightarrow>
                if \<not> answered e then (Inl Network_error, s')
                else if \<not> (200 \<le> status \<and> status \<le> 299) then
                  (Inl (Request_failed (case body of Err msg \<Rightarrow> msg | _ \<Rightarrow> ''Request failed'')), s')
                else if body = No_body then (Inl Invalid_json, s')
                else (Inr body, s')))"

subsection \<open>State of the WorkoutSession component\<close>

record exercise =
  ex_id :: uuid
  ex_name :: string
  planned_sets :: int
  order_index :: int

record routine =
  rt_id :: uuid
  rt_name :: string
  rt_exercises :: "exercise list"

record workout_set =
  ws_id :: "uuid option"
  ws_exercise_name :: string
  ws_weight :: rat
  ws_reps :: int
  ws_rpe :: int
  ws_set_number :: int

record active_workout =
  aw_id :: uuid
  aw_routine_name :: string
  aw_start_time :: timestamp
  aw_exercises :: "exercise list"

text \<open>An entry of \<open>setInputs\<close>. A JavaScript number is a rational where it can be a
  fraction (the weight) and an integer where the code parses one.\<close>

record set_input =
  weight :: rat
  reps :: int
  rpe :: int

text \<open>
  An async handler stops at each \<open>await\<close> of a call to the API and goes on when the
  response is there; other events are taken in between. What a stopped handler holds is
  the response it waits for and the values of the render it was started in that the rest
  of its code reads: the routine being started, the exercise name and the slot of a set
  saved on blur, the id of the set being deleted, and, for the handlers that flush the
  inputs first, what they do after the flush.
\<close>

datatype follow_up =
    Then_nothing
  | Then_next int "active_workout option"
  | Then_previous
  | Then_select int
  | Then_finish uuid

datatype suspended =
    Awaiting_workout routine "api_error + json_body"
  | Awaiting_sets follow_up "(api_error + json_body) list"
  | Awaiting_set string nat "api_error + json_body"
  | Awaiting_delete uuid "api_error + json_body"
  | Awaiting_update "api_error + json_body"

text \<open>
  The state hooks of the component, the user \<open>useAuth\<close> gives it, the session id the
  ApiClient holds, the lines written with \<open>console.error\<close>, whether an error thrown
  while rendering has unmounted the component, and the handlers stopped at an \<open>await\<close>.
\<close>

record view =
  user :: "session_user option"
  sessionId :: "string option"
  routines_state :: "routine list"
  selectedRoutineId :: uuid
  activeWorkout :: "active_workout option"
  workoutSets :: "workout_set list"
  currentExerciseIndex :: int
  currentExercise :: "exercise option"
  setInputs :: "set_input list"
  editingSetId :: "uuid option"
  console :: "string list"
  unmounted :: bool
  suspended :: "suspended list"

definition log_error :: "string \<Rightarrow> view \<Rightarrow> view" where
  "log_error line v = v\<lparr>console := console v @ [line]\<rparr>"

text \<open>\<open>xs[i]\<close> for a JavaScript number \<open>i\<close>: undefined out of range.\<close>

definition at_index :: "'a list \<Rightarrow> int \<Rightarrow> 'a option" where
  "at_index xs i = (if 0 \<le> i \<and> i < int (length xs) then Some (xs ! nat i) else None)"

text \<open>
  The effect on \<open>[activeWorkout, currentExerciseIndex]\<close>. Reading \<open>planned_sets\<close> of an
  exercise that is not there throws inside the effect.
\<close>

definition init_inputs :: "view \<Rightarrow> view" where
  "init_inputs v =
     (case activeWorkout v of
        None \<Rightarrow> v
      | Some aw \<Rightarrow>
          if length (aw_exercises aw) > 0 then
            (case at_index (aw_exercises aw) (currentExerciseIndex v) of
               None \<Rightarrow> v\<lparr>unmounted := True\<rparr>
             | Some exercise \<Rightarrow>
                 v\<lparr>currentExercise := Some exercise,
                   setInputs := replicate (nat (planned_sets exercise))
                                  \<lparr>weight = 0, reps = 0, rpe = 5\<rparr>\<rparr>)
          else v)"

text \<open>The next render after a handler: the effect runs when one of its two
  dependencies changed.\<close>

definition rerender :: "view \<Rightarrow> view \<Rightarrow> view" where
  "rerender shown v =
     (if activeWorkout v \<noteq> activeWorkout shown
         \<or> currentExerciseIndex v \<noteq> currentExerciseIndex shown
      then init_inputs v else v)"

subsection \<open>Handlers\<close>

text \<open>
  Each handler is written first as it runs when every response is there before the next
  event; the next subsection splits the async ones at their awaits. Each call to the API
  takes its own environment; the calls \<open>Promise.all\<close> starts together take those of a
  family \<open>es\<close>, in the order of the list, and reach the server in that order.
\<close>

definition startWorkout :: "call_env \<Rightarrow> timestamp \<Rightarrow> view \<times> server \<Rightarrow> view \<times> server" where
  "startWorkout e now vs =
     (case vs of (v, s) \<Rightarrow>
        if user v = None \<or> selectedRoutineId v = [] then (v, s)
        else (case find (\<lambda>r. rt_id r = selectedRoutineId v) (routines_state v) of
                None \<Rightarrow> (v, s)
              | Some selectedRoutine \<Rightarrow>
                  (case request e (sessionId v)
                          (POST_workouts \<lparr>iw_routine_id = Some (selectedRoutineId v),
                                          iw_routine_name = rt_name selectedRoutine,
                                          iw_start_time = now, iw_end_time = None\<rparr>) s of
                     (Inr (Workout_one workout), s') \<Rightarrow>
                       (init_inputs
                          (v\<lparr>activeWorkout :=
                                Some \<lparr>aw_id = w_id workout,
                                      aw_routine_name = rt_name selectedRoutine,
                                      aw_start_time = w_start_time workout,
                                      aw_exercises = rt_exercises selectedRoutine\<rparr>,
                             workoutSets := [],
                             currentExerciseIndex := 0\<rparr>), s')
                   | (result, s') \<Rightarrow> (log_error ''Error starting workout:'' v, s'))))"

text \<open>\<open>set.weight > 0\<close> on the weight of a body.\<close>

definition above_zero :: "json_weight \<Rightarrow> bool" where
  "above_zero w =
     (case w of Number x \<Rightarrow> x > 0 | Decimal_string x \<Rightarrow> x > 0 | Other_string other \<Rightarrow> False)"

definition setsToSave ::
  "active_workout \<Rightarrow> exercise \<Rightarrow> set_input list \<Rightarrow> insert_workout_set list" where
  "setsToSave aw ex inputs =
     filter (\<lambda>set. above_zero (is_weight set) \<or> is_reps set > 0)
       (map (\<lambda>(index, input).
               \<lparr>is_workout_id = aw_id aw, is_exercise_name = ex_name ex,
                is_weight = Number (weight input), is_reps = reps input, is_rpe = rpe input,
                is_set_number = int index + 1\<rparr>)
            (enumerate 0 inputs))"

definition created_set :: "json_body \<Rightarrow> workout_set" where
  "created_set body =
     (case body of
        Set_one row \<Rightarrow>
          \<lparr>ws_id = Some (s_id row), ws_exercise_name = s_exercise_name row,
           ws_weight = s_weight row, ws_reps = s_reps row, ws_rpe = s_rpe row,
           ws_set_number = s_set_number row\<rparr>
      | _ \<Rightarrow> \<lparr>ws_id = None, ws_exercise_name = [], ws_weight = 0, ws_reps = 0, ws_rpe = 0,
             ws_set_number = 0\<rparr>)"

fun create_each ::
  "(nat \<Rightarrow> call_env) \<Rightarrow> nat \<Rightarrow> string option \<Rightarrow> insert_workout_set list \<Rightarrow> server
     \<Rightarrow> (api_error + json_body) list \<times> server" where
  "create_each es k sid [] s = ([], s)"
| "create_each es k sid (x # sets) s =
     (case request (es k) sid (POST_workout_sets x) s of
        (result, s') \<Rightarrow>
          (case create_each es (Suc k) sid sets s' of
             (results, s'') \<Rightarrow> (result # results, s'')))"

fun promise_all :: "('e + 'a) list \<Rightarrow> 'e + 'a list" where
  "promise_all [] = Inr []"
| "promise_all (Inl err # rs) = Inl err"
| "promise_all (Inr x # rs) =
     (case promise_all rs of Inl err \<Rightarrow> Inl err | Inr xs \<Rightarrow> Inr (x # xs))"

definition saveAllSets :: "(nat \<Rightarrow> call_env) \<Rightarrow> view \<times> server \<Rightarrow> view \<times> server" where
  "saveAllSets es vs =
     (case vs of (v, s) \<Rightarrow>
        (case (activeWorkout v, currentExercise v) of
           (Some aw, Some ex) \<Rightarrow>
             (let sets = setsToSave aw ex (setInputs v)
              in if length sets = 0 then (v, s)
                 else (case create_each es 0 (sessionId v) sets s of
                         (results, s') \<Rightarrow>
                           (case promise_all results of
                              Inl err \<Rightarrow> (log_error ''Error saving sets:'' v, s')
                            | Inr newSets \<Rightarrow>
                                (v\<lparr>workoutSets := workoutSets v @ map created_set newSets\<rparr>,
                                 s'))))
         | _ \<Rightarrow> (v, s)))"

definition goToNextExercise :: "(nat \<Rightarrow> call_env) \<Rightarrow> view \<times> server \<Rightarrow> view \<times> server" where
  "goToNextExercise es vs =
     (case saveAllSets es vs of (v, s) \<Rightarrow>
        (case activeWorkout (fst vs) of
           None \<Rightarrow> (log_error ''Uncaught (in promise) TypeError'' v, s)
         | Some aw \<Rightarrow>
             if currentExerciseIndex (fst vs) < int (length (aw_exercises aw)) - 1
             then (rerender v (v\<lparr>currentExerciseIndex := currentExerciseIndex v + 1\<rparr>), s)
             else (v, s)))"

definition goToPreviousExercise ::
  "(nat \<Rightarrow> call_env) \<Rightarrow> view \<times> server \<Rightarrow> view \<times> server" where
  "goToPreviousExercise es vs =
     (if currentExerciseIndex (fst vs) > 0 then
        (case saveAllSets es vs of (v, s) \<Rightarrow>
           (rerender v (v\<lparr>currentExerciseIndex := currentExerciseIndex v - 1\<rparr>), s))
      else vs)"

definition selectExercise ::
  "(nat \<Rightarrow> call_env) \<Rightarrow> int \<Rightarrow> view \<times> server \<Rightarrow> view \<times> server" where
  "selectExercise es exerciseIndex vs =
     (if exerciseIndex \<noteq> currentExerciseIndex (fst vs) then
        (case saveAllSets es vs of (v, s) \<Rightarrow>
           (rerender v (v\<lparr>currentExerciseIndex := exerciseIndex\<rparr>), s))
      else vs)"

datatype input_change = Weight rat | Reps int | Rpe int

definition change_input :: "input_change \<Rightarrow> set_input \<Rightarrow> set_input" where
  "change_input change input =
     (case change of
        Weight x \<Rightarrow> input\<lparr>weight := x\<rparr>
      | Reps n \<Rightarrow> input\<lparr>reps := n\<rparr>
      | Rpe n \<Rightarrow> input\<lparr>rpe := n\<rparr>)"

definition updateSetInput :: "nat \<Rightarrow> input_change \<Rightarrow> view \<Rightarrow> view" where
  "updateSetInput setIndex change v =
     v\<lparr>setInputs := map (\<lambda>(index, input). if index = setIndex then change_input change input
                                             else input)
                         (enumerate 0 (setInputs v))\<rparr>"

definition saveSetOnBlur :: "call_env \<Rightarrow> nat \<Rightarrow> view \<times> server \<Rightarrow> view \<times> server" where
  "saveSetOnBlur e setIndex vs =
     (case vs of (v, s) \<Rightarrow>
        (case (activeWorkout v, currentExercise v) of
           (Some aw, Some ex) \<Rightarrow>
             (case at_index (setInputs v) (int setIndex) of
                None \<Rightarrow> (log_error ''Uncaught (in promise) TypeError'' v, s)
              | Some setData \<Rightarrow>
                  if weight setData > 0 \<or> reps setData > 0 then
                    (case request e (sessionId v)
                            (POST_workout_sets
                               \<lparr>is_workout_id = aw_id aw, is_exercise_name = ex_name ex,
                                is_weight = Number (weight setData), is_reps = reps setData,
                                is_rpe = rpe setData, is_set_number = int setIndex + 1\<rparr>) s of
                       (Inl err, s') \<Rightarrow> (log_error ''Error saving set:'' v, s')
                     | (Inr body, s') \<Rightarrow>
                         (v\<lparr>workoutSets :=
                               filter (\<lambda>set. \<not> (ws_exercise_name set = ex_name ex
                                                \<and> ws_set_number set = int setIndex + 1))
                                      (workoutSets v)
                               @ [created_set body]\<rparr>, s'))
                  else (v, s))
         | _ \<Rightarrow> (v, s)))"

definition deleteSet :: "call_env \<Rightarrow> uuid \<Rightarrow> view \<times> server \<Rightarrow> view \<times> server" where
  "deleteSet e setId vs =
     (case vs of (v, s) \<Rightarrow>
        (case request e (sessionId v) (DELETE_workout_sets setId) s of
           (Inl err, s') \<Rightarrow> (log_error ''Error deleting set:'' v, s')
         | (Inr body, s') \<Rightarrow>
             (v\<lparr>workoutSets := filter (\<lambda>set. ws_id set \<noteq> Some setId) (workoutSets v)\<rparr>, s')))"

definition change_set :: "input_change \<Rightarrow> workout_set \<Rightarrow> workout_set" where
  "change_set change x =
     (case change of
        Weight w \<Rightarrow> x\<lparr>ws_weight := w\<rparr>
      | Reps n \<Rightarrow> x\<lparr>ws_reps := n\<rparr>
      | Rpe n \<Rightarrow> x\<lparr>ws_rpe := n\<rparr>)"

definition updateSet :: "uuid \<Rightarrow> input_change \<Rightarrow> view \<Rightarrow> view" where
  "updateSet setId updates v =
     v\<lparr>workoutSets := map (\<lambda>set. if ws_id set = Some setId then change_set updates set else set)
                           (workoutSets v),
       editingSetId := None\<rparr>"

definition finishWorkout ::
  "(nat \<Rightarrow> call_env) \<Rightarrow> call_env \<Rightarrow> timestamp \<Rightarrow> view \<times> server \<Rightarrow> view \<times> server" where
  "finishWorkout es e now vs =
     (case activeWorkout (fst vs) of
        None \<Rightarrow> vs
      | Some aw \<Rightarrow>
          (case saveAllSets es vs of (v, s) \<Rightarrow>
             (case request e (sessionId v) (PATCH_workouts (aw_id aw) (end_time_only now)) s of
                (Inl err, s') \<Rightarrow> (log_error ''Error finishing workout:'' v, s')
              | (Inr body, s') \<Rightarrow>
                  (rerender v
                     (v\<lparr>activeWorkout := None, workoutSets := [], currentExerciseIndex := 0,
                        currentExercise := None, setInputs := [], selectedRoutineId := []\<rparr>),
                   s'))))"

subsection \<open>Handlers stopped at an await\<close>

text \<open>
  A request is served when it is sent; its response, and with it the rest of the handler,
  comes as a later event. \<open>saveAllSets\<close> sends its requests and stops, unless it has
  nothing to send: then it returns at once and the handler that awaits it goes on before
  any other event.
\<close>

definition send_sets ::
  "(nat \<Rightarrow> call_env) \<Rightarrow> view \<times> server \<Rightarrow> (api_error + json_body) list \<times> server" where
  "send_sets es vs =
     (case vs of (v, s) \<Rightarrow>
        (case (activeWorkout v, currentExercise v) of
           (Some aw, Some ex) \<Rightarrow> create_each es 0 (sessionId v) (setsToSave aw ex (setInputs v)) s
         | _ \<Rightarrow> ([], s)))"

text \<open>The rest of \<open>saveAllSets\<close>, on the state it finds when the responses are there:
  \<open>setWorkoutSets(prev => [...prev, ...newSets])\<close>, or the error logged.\<close>

definition settle_sets :: "(api_error + json_body) list \<Rightarrow> view \<Rightarrow> view" where
  "settle_sets results v =
     (if results = [] then v
      else (case promise_all results of
              Inl err \<Rightarrow> log_error ''Error saving sets:'' v
            | Inr newSets \<Rightarrow> v\<lparr>workoutSets := workoutSets v @ map created_set newSets\<rparr>))"

text \<open>
  What a navigation handler does after \<open>await saveAllSets()\<close>. The guard of
  \<open>goToNextExercise\<close> reads the index and the workout of the render the handler was
  started in; the updates \<open>prev => prev + 1\<close> and \<open>prev => prev - 1\<close> read the index of
  the state they find.
\<close>

definition after_flush :: "follow_up \<Rightarrow> view \<Rightarrow> view" where
  "after_flush todo v =
     (case todo of
        Then_nothing \<Rightarrow> v
      | Then_next index workout \<Rightarrow>
          (case workout of
             None \<Rightarrow> log_error ''Uncaught (in promise) TypeError'' v
           | Some aw \<Rightarrow>
               if index < int (length (aw_exercises aw)) - 1
               then v\<lparr>currentExerciseIndex := currentExerciseIndex v + 1\<rparr>
               else v)
      | Then_previous \<Rightarrow> v\<lparr>currentExerciseIndex := currentExerciseIndex v - 1\<rparr>
      | Then_select exerciseIndex \<Rightarrow> v\<lparr>currentExerciseIndex := exerciseIndex\<rparr>
      | Then_finish workoutId \<Rightarrow> v)"

definition suspend :: "suspended \<Rightarrow> view \<Rightarrow> view" where
  "suspend handler v = v\<lparr>suspended := suspended v @ [handler]\<rparr>"

text \<open>\<open>finishWorkout\<close> after its flush: the PATCH is sent, and the handler stops again.\<close>

definition send_finish ::
  "uuid \<Rightarrow> call_env \<Rightarrow> timestamp \<Rightarrow> view \<times> server \<Rightarrow> view \<times> server" where
  "send_finish workoutId e now vs =
     (case vs of (v, s) \<Rightarrow>
        (case request e (sessionId v) (PATCH_workouts workoutId (end_time_only now)) s of
           (result, s') \<Rightarrow> (suspend (Awaiting_update result) v, s')))"

text \<open>A handler that flushes first, from its start to its first stop.\<close>

definition flush_then ::
  "follow_up \<Rightarrow> (nat \<Rightarrow> call_env) \<Rightarrow> view \<times> server \<Rightarrow> view \<times> server" where
  "flush_then todo es vs =
     (case send_sets es vs of
        (results, s') \<Rightarrow>
          if results = [] then (rerender (fst vs) (after_flush todo (fst vs)), s')
          else (suspend (Awaiting_sets todo results) (fst vs), s'))"

text \<open>The async handlers, from the event that starts them to their first stop.\<close>

datatype call =
    Start call_env timestamp
  | Next "nat \<Rightarrow> call_env"
  | Previous "nat \<Rightarrow> call_env"
  | Select "nat \<Rightarrow> call_env" int
  | Blur call_env nat
  | Save "nat \<Rightarrow> call_env"
  | Delete call_env uuid
  | Finish "nat \<Rightarrow> call_env" call_env timestamp

fun invoke :: "call \<Rightarrow> view \<times> server \<Rightarrow> view \<times> server" where
  "invoke (Start e now) (v, s) =
     (if user v = None \<or> selectedRoutineId v = [] then (v, s)
      else (case find (\<lambda>r. rt_id r = selectedRoutineId v) (routines_state v) of
              None \<Rightarrow> (v, s)
            | Some selectedRoutine \<Rightarrow>
                (case request e (sessionId v)
                        (POST_workouts \<lparr>iw_routine_id = Some (selectedRoutineId v),
                                        iw_routine_name = rt_name selectedRoutine,
                                        iw_start_time = now, iw_end_time = None\<rparr>) s of
                   (result, s') \<Rightarrow> (suspend (Awaiting_workout selectedRoutine result) v, s'))))"
| "invoke (Next es) (v, s) =
     flush_then (Then_next (currentExerciseIndex v) (activeWorkout v)) es (v, s)"
| "invoke (Previous es) (v, s) =
     (if currentExerciseIndex v > 0 then flush_then Then_previous es (v, s) else (v, s))"
| "invoke (Select es exerciseIndex) (v, s) =
     (if exerciseIndex \<noteq> currentExerciseIndex v then flush_then (Then_select exerciseIndex) es (v, s)
      else (v, s))"
| "invoke (Blur e setIndex) (v, s) =
     (case (activeWorkout v, currentExercise v) of
        (Some aw, Some ex) \<Rightarrow>
          (case at_index (setInputs v) (int setIndex) of
             None \<Rightarrow> (log_error ''Uncaught (in promise) TypeError'' v, s)
           | Some setData \<Rightarrow>
               if weight setData > 0 \<or> reps setData > 0 then
                 (case request e (sessionId v)
                         (POST_workout_sets
                            \<lparr>is_workout_id = aw_id aw, is_exercise_name = ex_name ex,
                             is_weight = Number (weight setData), is_reps = reps setData,
                             is_rpe = rpe setData, is_set_number = int setIndex + 1\<rparr>) s of
                    (result, s') \<Rightarrow> (suspend (Awaiting_set (ex_name ex) setIndex result) v, s'))
               else (v, s))
      | _ \<Rightarrow> (v, s))"
| "invoke (Save es) (v, s) = flush_then Then_nothing es (v, s)"
| "invoke (Delete e setId) (v, s) =
     (case request e (sessionId v) (DELETE_workout_sets setId) s of
        (result, s') \<Rightarrow> (suspend (Awaiting_delete setId result) v, s'))"
| "invoke (Finish es e now) (v, s) =
     (case activeWorkout v of
        None \<Rightarrow> (v, s)
      | Some aw \<Rightarrow>
          (case send_sets es (v, s) of
             (results, s') \<Rightarrow>
               if results = [] then send_finish (aw_id aw) e now (v, s')
               else (suspend (Awaiting_sets (Then_finish (aw_id aw)) results) v, s')))"

text \<open>
  A stopped handler goes on, on the state it finds. The environment and the clock are
  those of the call it may send next (only \<open>finishWorkout\<close> sends one).
\<close>

fun resume :: "suspended \<Rightarrow> call_env \<Rightarrow> timestamp \<Rightarrow> view \<times> server \<Rightarrow> view \<times> server" where
  "resume (Awaiting_workout selectedRoutine result) e now (v, s) =
     (case result of
        Inr (Workout_one workout) \<Rightarrow>
          (init_inputs
             (v\<lparr>activeWorkout :=
                   Some \<lparr>aw_id = w_id workout,
                         aw_routine_name = rt_name selectedRoutine,
                         aw_start_time = w_start_time workout,
                         aw_exercises = rt_exercises selectedRoutine\<rparr>,
                workoutSets := [],
                currentExerciseIndex := 0\<rparr>), s)
      | _ \<Rightarrow> (log_error ''Error starting workout:'' v, s))"
| "resume (Awaiting_sets todo results) e now (v, s) =
     (case todo of
        Then_finish workoutId \<Rightarrow> send_finish workoutId e now (settle_sets results v, s)
      | _ \<Rightarrow> (rerender v (after_flush todo (settle_sets results v)), s))"
| "resume (Awaiting_set name setIndex result) e now (v, s) =
     (case result of
        Inl err \<Rightarrow> (log_error ''Error saving set:'' v, s)
      | Inr body \<Rightarrow>
          (v\<lparr>workoutSets :=
                filter (\<lambda>set. \<not> (ws_exercise_name set = name
                                 \<and> ws_set_number set = int setIndex + 1))
                       (workoutSets v)
                @ [created_set body]\<rparr>, s))"
| "resume (Awaiting_delete setId result) e now (v, s) =
     (case result of
        Inl err \<Rightarrow> (log_error ''Error deleting set:'' v, s)
      | Inr body \<Rightarrow>
          (v\<lparr>workoutSets := filter (\<lambda>set. ws_id set \<noteq> Some setId) (workoutSets v)\<rparr>, s))"
| "resume (Awaiting_update result) e now (v, s) =
     (case result of
        Inl err \<Rightarrow> (log_error ''Error finishing workout:'' v, s)
      | Inr body \<Rightarrow>
          (rerender v
             (v\<lparr>activeWorkout := None, workoutSets := [], currentExerciseIndex := 0,
                currentExercise := None, setInputs := [], selectedRoutineId := []\<rparr>), s))"

subsection \<open>Events\<close>

text \<open>
  What the user does and what comes back from the network. The events named after a
  handler run it with every response there before the next event; \<open>Invoke\<close> runs a handler
  to its first stop, and \<open>Resume k\<close> lets the \<open>k\<close>-th stopped handler go on, so that
  handlers started while others wait are sequences of these two.
\<close>

datatype event =
    Select_routine uuid
  | Start_workout call_env timestamp
  | Next_exercise "nat \<Rightarrow> call_env"
  | Previous_exercise "nat \<Rightarrow> call_env"
  | Select_exercise "nat \<Rightarrow> call_env" int
  | Update_set_input nat input_change
  | Blur_set_input call_env nat
  | Save_sets "nat \<Rightarrow> call_env"
  | Delete_set call_env uuid
  | Edit_set "uuid option"
  | Update_set uuid input_change
  | Finish_workout "nat \<Rightarrow> call_env" call_env timestamp
  | Invoke call
  | Resume nat call_env timestamp

fun dispatch :: "event \<Rightarrow> view \<times> server \<Rightarrow> view \<times> server" where
  "dispatch (Select_routine routineId) (v, s) = (v\<lparr>selectedRoutineId := routineId\<rparr>, s)"
| "dispatch (Start_workout e now) vs = startWorkout e now vs"
| "dispatch (Next_exercise es) vs = goToNextExercise es vs"
| "dispatch (Previous_exercise es) vs = goToPreviousExercise es vs"
| "dispatch (Select_exercise es exerciseIndex) vs = selectExercise es exerciseIndex vs"
| "dispatch (Update_set_input setIndex change) (v, s) = (updateSetInput setIndex change v, s)"
| "dispatch (Blur_set_input e setIndex) vs = saveSetOnBlur e setIndex vs"
| "dispatch (Save_sets es) vs = saveAllSets es vs"
| "dispatch (Delete_set e setId) vs = deleteSet e setId vs"
| "dispatch (Edit_set setId) (v, s) = (v\<lparr>editingSetId := setId\<rparr>, s)"
| "dispatch (Update_set setId updates) (v, s) = (updateSet setId updates v, s)"
| "dispatch (Finish_workout es e now) vs = finishWorkout es e now vs"
| "dispatch (Invoke handler) vs = invoke handler vs"
| "dispatch (Resume k e now) (v, s) =
     (if k < length (suspended v)
      then resume (suspended v ! k) e now
             (v\<lparr>suspended := take k (suspended v) @ drop (Suc k) (suspended v)\<rparr>, s)
      else (v, s))"

text \<open>A sequence of events; a component that has been unmounted takes no more of them.\<close>

fun run :: "event list \<Rightarrow> view \<times> server \<Rightarrow> view \<times> server" where
  "run [] vs = vs"
| "run (ev # evs) vs = (if unmounted (fst vs) then vs else run evs (dispatch ev vs))"

section \<open>Notions the statements use\<close>

text \<open>The server with rows added at the end of \<open>workout_sets\<close>, and nothing else changed.\<close>

definition add_sets :: "set_row list \<Rightarrow> server \<Rightarrow> server" where
  "add_sets rows s = s\<lparr>db := (db s)\<lparr>workout_sets := workout_sets (db s) @ rows\<rparr>\<rparr>"

text \<open>
  A workout is finished when its row has an \<open>end_time\<close>. No statement removes a row of
  \<open>workouts\<close> or moves it, so a row is the same workout before and after a request,
  whatever the request rewrites in it: the second table keeps the finished workouts of
  the first when it has a row with an \<open>end_time\<close> at every place where the first has one.
\<close>

definition still_ended :: "database \<Rightarrow> database \<Rightarrow> bool" where
  "still_ended d d' =
     (length (workouts d) \<le> length (workouts d')
      \<and> list_all (\<lambda>(w, w'). w_end_time w = None \<or> w_end_time w' \<noteq> None)
           (zip (workouts d) (workouts d')))"

text \<open>The cursor is on an exercise of the running workout, when there is one.\<close>

definition cursor_in_bounds :: "view \<Rightarrow> bool" where
  "cursor_in_bounds v =
     (case activeWorkout v of
        None \<Rightarrow> True
      | Some aw \<Rightarrow>
          aw_exercises aw = []
          \<or> 0 \<le> currentExerciseIndex v
            \<and> currentExerciseIndex v < int (length (aw_exercises aw)))"

text \<open>A handler that was stopped by the last event goes on at once: its response is there
  before the next event.\<close>

definition answered_at_once ::
  "view \<Rightarrow> call_env \<Rightarrow> timestamp \<Rightarrow> view \<times> server \<Rightarrow> view \<times> server" where
  "answered_at_once shown e now vs =
     (if length (suspended shown) < length (suspended (fst vs))
      then dispatch (Resume (length (suspended shown)) e now) vs
      else vs)"


section \<open>A small world for the examples\<close>

text \<open>Two users with a session each; a routine of two exercises for the first, one of
  one exercise for the second; one running workout of the first user with one set.\<close>

definition env_ok :: "uuid \<Rightarrow> call_env" where
  "env_ok new = \<lparr>reachable = True, answered = True, body_valid = True, store_up = True,
                 gen_uuid = new, random36 = new, now_ms = 0,
                 bcrypt_hash = ''hashed'', bcrypt_compare = True\<rparr>"

definition alice :: session_user where
  "alice = \<lparr>su_id = ''u-alice'', su_username = ''alice''\<rparr>"

definition bob :: session_user where
  "bob = \<lparr>su_id = ''u-bob'', su_username = ''bob''\<rparr>"

definition example_db :: database where
  "example_db =
     \<lparr>users = [\<lparr>u_id = ''u-alice'', u_username = ''alice'', u_password = ''hashed''\<rparr>,
               \<lparr>u_id = ''u-bob'', u_username = ''bob'', u_password = ''hashed''\<rparr>],
      routines = [\<lparr>r_id = ''r-push'', r_user_id = ''u-alice'', r_name = ''Push''\<rparr>,
                  \<lparr>r_id = ''r-pull'', r_user_id = ''u-bob'', r_name = ''Pull''\<rparr>],
      routine_exercises =
        [\<lparr>e_id = ''x-bench'', e_routine_id = ''r-push'', e_name = ''Bench'',
          e_planned_sets = 2, e_order_index = 0\<rparr>,
         \<lparr>e_id = ''x-dips'', e_routine_id = ''r-push'', e_name = ''Dips'',
          e_planned_sets = 1, e_order_index = 1\<rparr>,
         \<lparr>e_id = ''x-row'', e_routine_id = ''r-pull'', e_name = ''Row'',
          e_planned_sets = 3, e_order_index = 0\<rparr>],
      workouts = [\<lparr>w_id = ''w-1'', w_user_id = ''u-alice'', w_routine_id = Some ''r-push'',
                   w_routine_name = ''Push'', w_start_time = 1000, w_end_time = None\<rparr>],
      workout_sets = [\<lparr>s_id = ''s-1'', s_workout_id = ''w-1'', s_exercise_name = ''Bench'',
                       s_weight = 135, s_reps = 5, s_rpe = 7, s_set_number = 1\<rparr>]\<rparr>"

definition example_server :: server where
  "example_server =
     \<lparr>sessions = [''tok-alice'' \<mapsto> alice, ''tok-bob'' \<mapsto> bob], db = example_db\<rparr>"

definition bench :: exercise where
  "bench = \<lparr>ex_id = ''x-bench'', ex_name = ''Bench'', planned_sets = 2, order_index = 0\<rparr>"

definition dips :: exercise where
  "dips = \<lparr>ex_id = ''x-dips'', ex_name = ''Dips'', planned_sets = 1, order_index = 1\<rparr>"

definition example_workout :: active_workout where
  "example_workout = \<lparr>aw_id = ''w-1'', aw_routine_name = ''Push'', aw_start_time = 1000,
                       aw_exercises = [bench, dips]\<rparr>"

text \<open>The first user in that workout, on the first exercise, with 135 x 5 entered in the
  first slot and nothing in the second.\<close>

definition example_view :: view where
  "example_view =
     \<lparr>user = Some alice, sessionId = Some ''tok-alice'',
      routines_state = [\<lparr>rt_id = ''r-push'', rt_name = ''Push'', rt_exercises = [bench, dips]\<rparr>],
      selectedRoutineId = ''r-push'', activeWorkout = Some example_workout, workoutSets = [],
      currentExerciseIndex = 0, currentExercise = Some bench,
      setInputs = [\<lparr>weight = 135, reps = 5, rpe = 5\<rparr>, \<lparr>weight = 0, reps = 0, rpe = 5\<rparr>],
      editingSetId = None, console = [], unmounted = False, suspended = []\<rparr>"

text \<open>Environments in which every call goes through; the \<open>k\<close>-th call of a family draws
  the uuid \<open>new-k\<close>.\<close>

definition envs_ok :: "nat \<Rightarrow> call_env" where
  "envs_ok k = env_ok (''new-'' @ base36 k)"

text \<open>The same user before the workout is started, and on the last exercise of it.\<close>

definition example_idle :: view where
  "example_idle =
     example_view\<lparr>activeWorkout := None, currentExercise := None, setInputs := []\<rparr>"

definition example_last :: view where
  "example_last =
     example_view\<lparr>currentExerciseIndex := 1, currentExercise := Some dips,
                   setInputs := [\<lparr>weight = 0, reps = 12, rpe = 8\<rparr>]\<rparr>"

text \<open>An environment in which the request does not arrive.\<close>

definition env_down :: call_env where
  "env_down = (env_ok ''lost'')\<lparr>reachable := False\<rparr>"

text \<open>The server once the running workout of the example has been finished at 9000, and
  the body \<open>{ end_time: null }\<close>.\<close>

definition example_done :: server where
  "example_done =
     example_server
       \<lparr>db := example_db
          \<lparr>workouts := [\<lparr>w_id = ''w-1'', w_user_id = ''u-alice'',
                          w_routine_id = Some ''r-push'', w_routine_name = ''Push'',
                          w_start_time = 1000, w_end_time = Some 9000\<rparr>]\<rparr>\<rparr>"

definition end_time_null :: workout_patch where
  "end_time_null =
     \<lparr>p_id = Absent, p_user_id = Absent, p_routine_id = Absent, p_routine_name = Absent,
      p_start_time = Absent, p_end_time = Null, p_created_at = Absent\<rparr>"


section \<open>The server: sessions and ownership\<close>

lemma base36_nonempty: "base36 n \<noteq> []"
  by (subst base36.simps) simp

lemma generateSessionId_nonempty: "generateSessionId e \<noteq> []"
  by (simp add: generateSessionId_def base36_nonempty)

lemma authenticateUser_Inr:
  "authenticateUser ss header = Inr u \<longleftrightarrow> (\<exists>t. header = Some t \<and> t \<noteq> [] \<and> ss t = Some u)"
  by (auto simp: authenticateUser_def split: option.splits)

lemma authenticateUser_Inl:
  "authenticateUser ss header = Inl r \<longleftrightarrow>
     r = (401, Err ''Not authenticated'') \<and>
     (header = None \<or> header = Some [] \<or> (\<exists>t. header = Some t \<and> ss t = None))"
  by (auto simp: authenticateUser_def split: option.splits)

lemma handle_refused:
  assumes "authenticated rq" and "authenticateUser (sessions s) header = Inl r"
  shows "handle e header rq s = (r, s)"
  using assms by (cases rq) (simp_all add: behind_auth_def)

lemma handle_admitted:
  assumes "authenticated rq" and "authenticateUser (sessions s) header = Inr u"
  shows "fst (fst (handle e header rq s)) \<noteq> 401"
  using assms
  by (cases rq) (simp_all add: behind_auth_def split: sum.splits prod.splits option.splits)

lemma sessions_handle:
  "sessions (snd (handle e header rq s)) t = sessions s t
   \<or> (\<exists>u. sessions (snd (handle e header rq s)) t = Some u \<and> t = generateSessionId e)
   \<or> (sessions (snd (handle e header rq s)) t = None \<and> rq = POST_auth_signout \<and> header = Some t)"
  by (cases rq)
     (auto simp: behind_auth_def signup_def signin_def signout_def open_session_def Let_def
           split: sum.splits prod.splits option.splits if_splits)

text \<open>
  C7. Deleting the same workout set twice. When a first
  \<open>DELETE /api/workout-sets/:id\<close> has answered \<open>{success: true}\<close>, a second one with the
  same header and the same id leaves the server's state as it is, and answers
  \<open>{success: true}\<close> again; only a statement the database driver fails to run is answered
  with the route's 500. The missing row is never an error.
\<close>

theorem delete_workout_set_twice:
  assumes "handle e1 header (DELETE_workout_sets setId) s = ((200, Success), s1)"
  shows "handle e2 header (DELETE_workout_sets setId) s1 =
           ((if store_up e2 then (200, Success) else (500, Err ''Internal server error'')), s1)"
proof -
  obtain u where u: "authenticateUser (sessions s) header = Inr u"
    using assms by (cases "authenticateUser (sessions s) header")
      (auto simp: behind_auth_def authenticateUser_Inl)
  with assms have s1: "s1 = s\<lparr>db := deleteWorkoutSet setId (db s)\<rparr>" and "store_up e1"
    by (auto simp: behind_auth_def split: if_splits)
  have idem: "deleteWorkoutSet setId (deleteWorkoutSet setId d) = deleteWorkoutSet setId d" for d
    by (simp add: deleteWorkoutSet_def)
  show ?thesis
    using u by (simp add: s1 behind_auth_def idem)
qed

theorem delete_workout_set_twice_witness:
  "handle (env_ok ''a'') (Some ''tok-alice'') (DELETE_workout_sets ''s-1'') example_server
     = ((200, Success), example_server\<lparr>db := example_db\<lparr>workout_sets := []\<rparr>\<rparr>)
   \<and> handle (env_ok ''b'') (Some ''tok-alice'') (DELETE_workout_sets ''s-1'')
        (example_server\<lparr>db := example_db\<lparr>workout_sets := []\<rparr>\<rparr>)
     = ((200, Success), example_server\<lparr>db := example_db\<lparr>workout_sets := []\<rparr>\<rparr>)"
proof -
  have first: "handle (env_ok ''a'') (Some ''tok-alice'') (DELETE_workout_sets ''s-1'') example_server
     = ((200, Success), example_server\<lparr>db := example_db\<lparr>workout_sets := []\<rparr>\<rparr>)"
    by (simp add: behind_auth_def authenticateUser_def example_server_def example_db_def
        env_ok_def deleteWorkoutSet_def)
  from delete_workout_set_twice [OF first, of "env_ok ''b''"] first show ?thesis
    by (simp add: env_ok_def)
qed

lemma deleteRoutine_gone:
  "set (map r_id (filter (\<lambda>r. r_id r = routineId \<and> r_user_id r = userId) rs))
     = (if \<exists>r \<in> set rs. r_id r = routineId \<and> r_user_id r = userId then {routineId} else {})"
  by auto

text \<open>
  C8. Deleting a routine. With the primary key of \<open>routines\<close> in force, a
  \<open>DELETE /api/routines/:id\<close> by a signed-in user removes the routine of that id the
  user owns and every exercise whose \<open>routine_id\<close> is that id; the routines of every other
  user are all still there, in the same order, and each of them has the exercises it had.
\<close>

theorem delete_routine_cascade:
  assumes pk: "distinct (map r_id (routines (db s)))"
    and auth: "authenticateUser (sessions s) header = Inr u"
    and up: "store_up e"
    and s': "s' = snd (handle e header (DELETE_routines routineId) s)"
  shows "(\<forall>rt \<in> set (routines (db s)).
            r_id rt = routineId \<and> r_user_id rt = su_id u \<longrightarrow>
              rt \<notin> set (routines (db s')) \<and> getRoutineExercises routineId (db s') = [])
       \<and> filter (\<lambda>r. r_user_id r \<noteq> su_id u) (routines (db s'))
           = filter (\<lambda>r. r_user_id r \<noteq> su_id u) (routines (db s))
       \<and> (\<forall>rt \<in> set (routines (db s)).
            r_user_id rt \<noteq> su_id u \<longrightarrow>
              rt \<in> set (routines (db s'))
              \<and> getRoutineExercises (r_id rt) (db s') = getRoutineExercises (r_id rt) (db s))"
proof -
  have d: "db s' = deleteRoutine routineId (su_id u) (db s)"
    using auth up by (simp add: s' behind_auth_def)
  have other: "r_id rt \<noteq> routineId"
    if "rt \<in> set (routines (db s))" "r_user_id rt \<noteq> su_id u"
       "\<exists>r \<in> set (routines (db s)). r_id r = routineId \<and> r_user_id r = su_id u" for rt
  proof
    assume eq: "r_id rt = routineId"
    from that(3) obtain r where r: "r \<in> set (routines (db s))" "r_id r = routineId" "r_user_id r = su_id u"
      by blast
    with that eq have "r \<noteq> rt" by auto
    with pk r that(1) eq show False
      by (metis distinct_map inj_onD)
  qed
  show ?thesis
  proof (cases "\<exists>r \<in> set (routines (db s)). r_id r = routineId \<and> r_user_id r = su_id u")
    case True
    have keep: "filter (\<lambda>e. e_routine_id e = r_id rt) (filter (\<lambda>e. e_routine_id e \<noteq> routineId) xs)
                  = filter (\<lambda>e. e_routine_id e = r_id rt) xs"
      if "rt \<in> set (routines (db s))" "r_user_id rt \<noteq> su_id u" for rt xs
      using other [OF that True] by (auto intro: filter_cong)
    show ?thesis
      unfolding d deleteRoutine_def Let_def getRoutineExercises_def deleteRoutine_gone
      using True keep by (auto simp: filter_empty_conv intro: filter_cong)
  next
    case False
    then show ?thesis
      unfolding d deleteRoutine_def Let_def getRoutineExercises_def deleteRoutine_gone
      by (auto intro: filter_cong)
  qed
qed


theorem delete_routine_cascade_witness:
  "distinct (map r_id (routines (db example_server)))
   \<and> authenticateUser (sessions example_server) (Some ''tok-alice'') = Inr alice
   \<and> store_up (env_ok ''a'')
   \<and> routines (db (snd (handle (env_ok ''a'') (Some ''tok-alice'') (DELETE_routines ''r-push'')
                          example_server)))
       = [\<lparr>r_id = ''r-pull'', r_user_id = ''u-bob'', r_name = ''Pull''\<rparr>]
   \<and> getRoutineExercises ''r-push''
        (db (snd (handle (env_ok ''a'') (Some ''tok-alice'') (DELETE_routines ''r-push'')
                    example_server))) = []
   \<and> getRoutineExercises ''r-pull''
        (db (snd (handle (env_ok ''a'') (Some ''tok-alice'') (DELETE_routines ''r-push'')
                    example_server)))
       = getRoutineExercises ''r-pull'' (db example_server)"
proof -
  have pk: "distinct (map r_id (routines (db example_server)))"
    by (simp add: example_server_def example_db_def)
  have auth: "authenticateUser (sessions example_server) (Some ''tok-alice'') = Inr alice"
    by (simp add: authenticateUser_def example_server_def)
  have up: "store_up (env_ok ''a'')"
    by (simp add: env_ok_def)
  have rows: "routines (db (snd (handle (env_ok ''a'') (Some ''tok-alice'') (DELETE_routines ''r-push'')
                          example_server)))
       = [\<lparr>r_id = ''r-pull'', r_user_id = ''u-bob'', r_name = ''Pull''\<rparr>]"
    using auth up
    by (simp add: behind_auth_def deleteRoutine_def example_server_def example_db_def alice_def)
  have mine: "\<lparr>r_id = ''r-push'', r_user_id = ''u-alice'', r_name = ''Push''\<rparr>
                \<in> set (routines (db example_server))"
    and other: "\<lparr>r_id = ''r-pull'', r_user_id = ''u-bob'', r_name = ''Pull''\<rparr>
                \<in> set (routines (db example_server))"
    by (simp_all add: example_server_def example_db_def)
  note c = delete_routine_cascade [OF pk auth up refl, of "''r-push''"]
  from c mine have "getRoutineExercises ''r-push''
        (db (snd (handle (env_ok ''a'') (Some ''tok-alice'') (DELETE_routines ''r-push'')
                    example_server))) = []"
    by (auto simp: alice_def)
  moreover from c other have "getRoutineExercises ''r-pull''
        (db (snd (handle (env_ok ''a'') (Some ''tok-alice'') (DELETE_routines ''r-push'')
                    example_server)))
       = getRoutineExercises ''r-pull'' (db example_server)"
    by (auto simp: alice_def)
  ultimately show ?thesis
    using pk auth up rows by simp
qed

text \<open>
  C5. Ownership of exercises and sets. The two delete routes take the id from the path
  and delete the row, whoever is signed in: the second user, who owns neither the routine
  \<open>r-push\<close> nor the workout \<open>w-1\<close>, deletes the exercise \<open>x-bench\<close> of the one and the set
  \<open>s-1\<close> of the other.
\<close>

theorem delete_ignores_owner:
  "authenticateUser (sessions example_server) (Some ''tok-bob'') = Inr bob
   \<and> getRoutinesByUserId (su_id bob) example_db
       = [\<lparr>r_id = ''r-pull'', r_user_id = ''u-bob'', r_name = ''Pull''\<rparr>]
   \<and> getRoutineExercises ''r-push'' example_db \<noteq> []
   \<and> handle (env_ok ''a'') (Some ''tok-bob'') (DELETE_routine_exercises ''x-bench'') example_server
       = ((200, Success),
          example_server\<lparr>db := example_db\<lparr>routine_exercises := tl (routine_exercises example_db)\<rparr>\<rparr>)
   \<and> getWorkoutsByUserId (su_id bob) example_db = []
   \<and> handle (env_ok ''a'') (Some ''tok-bob'') (DELETE_workout_sets ''s-1'') example_server
       = ((200, Success), example_server\<lparr>db := example_db\<lparr>workout_sets := []\<rparr>\<rparr>)"
  by (simp add: behind_auth_def authenticateUser_def example_server_def example_db_def
      env_ok_def deleteWorkoutSet_def deleteRoutineExercise_def bob_def
      getRoutinesByUserId_def getRoutineExercises_def getWorkoutsByUserId_def)

lemma serve_keeps_session:
  assumes "sessions s t \<noteq> None"
    and "\<forall>(e, h, rq) \<in> set trace. \<not> (rq = POST_auth_signout \<and> h = Some t)"
  shows "sessions (serve trace s) t \<noteq> None"
  using assms
proof (induction trace arbitrary: s)
  case Nil
  then show ?case by simp
next
  case (Cons a trace)
  obtain e h rq where a: "a = (e, h, rq)" by (cases a)
  from Cons.prems(2) a have "\<not> (rq = POST_auth_signout \<and> h = Some t)" by simp
  with sessions_handle [of e h rq s t] Cons.prems(1)
  have "sessions (snd (handle e h rq s)) t \<noteq> None" by auto
  with Cons.IH [of "snd (handle e h rq s)"] Cons.prems(2) show ?case
    by (simp add: a)
qed

lemma serve_keeps_closed:
  assumes "sessions s t = None"
    and "\<forall>(e, h, rq) \<in> set trace. generateSessionId e \<noteq> t"
  shows "sessions (serve trace s) t = None"
  using assms
proof (induction trace arbitrary: s)
  case Nil
  then show ?case by simp
next
  case (Cons a trace)
  obtain e h rq where a: "a = (e, h, rq)" by (cases a)
  from Cons.prems(2) a have "generateSessionId e \<noteq> t" by simp
  with sessions_handle [of e h rq s t] Cons.prems(1)
  have "sessions (snd (handle e h rq s)) t = None" by auto
  with Cons.IH [of "snd (handle e h rq s)"] Cons.prems(2) show ?case
    by (simp add: a)
qed

lemma signin_opens:
  assumes "handle e header (POST_auth_signin username password) s = ((200, Auth_ok u t), s1)"
  shows "t \<noteq> [] \<and> sessions s1 t = Some u"
proof -
  from assms have "t = generateSessionId e" and "sessions s1 = (sessions s)(t \<mapsto> u)"
    by (auto simp: signin_def open_session_def Let_def split: if_splits option.splits)
  then show ?thesis
    by (simp add: generateSessionId_nonempty)
qed

lemma signout_closes:
  "t \<noteq> [] \<Longrightarrow> sessions (snd (handle e (Some t) POST_auth_signout s)) t = None"
  by (simp add: signout_def)

text \<open>
  C4. Session tokens. (1) A request to a route behind the middleware with no
  \<open>x-session-id\<close> header, an empty one, or one that is not a key of the session map is
  answered 401 \<open>Not authenticated\<close> and changes nothing. (2) The token a sign-in returns
  is admitted by every such route, after any sequence of requests that does not sign that
  token out. (3) After a sign-out with a token, and any sequence of requests in which no
  sign-up or sign-in draws the same token again, every such route answers 401 to it.
\<close>

theorem session_token_lifecycle:
  "(authenticated rq \<longrightarrow>
      (header = None \<or> header = Some [] \<or> (\<exists>t. header = Some t \<and> sessions s t = None)) \<longrightarrow>
      handle e header rq s = ((401, Err ''Not authenticated''), s))
   \<and> (handle e0 header0 (POST_auth_signin username password) s0 = ((200, Auth_ok u t), s1) \<longrightarrow>
        (\<forall>trace. (\<forall>(e', h', rq') \<in> set trace. \<not> (rq' = POST_auth_signout \<and> h' = Some t)) \<longrightarrow>
           (\<forall>e' rq'. authenticated rq' \<longrightarrow>
              fst (fst (handle e' (Some t) rq' (serve trace s1))) \<noteq> 401)))
   \<and> (\<forall>trace. (\<forall>(e', h', rq') \<in> set trace. generateSessionId e' \<noteq> t') \<longrightarrow>
        (\<forall>e' rq'. authenticated rq' \<longrightarrow>
           handle e' (Some t') rq' (serve trace (snd (handle e2 (Some t') POST_auth_signout s2)))
             = ((401, Err ''Not authenticated''),
                serve trace (snd (handle e2 (Some t') POST_auth_signout s2)))))"
proof (intro conjI impI allI)
  assume "authenticated rq"
    and "header = None \<or> header = Some [] \<or> (\<exists>t. header = Some t \<and> sessions s t = None)"
  then show "handle e header rq s = ((401, Err ''Not authenticated''), s)"
    by (intro handle_refused) (simp_all add: authenticateUser_Inl)
next
  fix trace :: "(call_env \<times> string option \<times> request) list" and e' rq'
  assume signin: "handle e0 header0 (POST_auth_signin username password) s0 = ((200, Auth_ok u t), s1)"
    and quiet: "\<forall>(e', h', rq') \<in> set trace. \<not> (rq' = POST_auth_signout \<and> h' = Some t)"
    and rq': "authenticated rq'"
  from signin_opens [OF signin] have t: "t \<noteq> []" "sessions s1 t \<noteq> None" by simp_all
  from serve_keeps_session [OF t(2) quiet] obtain u' where "sessions (serve trace s1) t = Some u'"
    by auto
  with t(1) have "authenticateUser (sessions (serve trace s1)) (Some t) = Inr u'"
    by (simp add: authenticateUser_Inr)
  from handle_admitted [OF rq' this] show "fst (fst (handle e' (Some t) rq' (serve trace s1))) \<noteq> 401" .
next
  fix trace :: "(call_env \<times> string option \<times> request) list" and e' rq'
  assume fresh: "\<forall>(e', h', rq') \<in> set trace. generateSessionId e' \<noteq> t'"
    and rq': "authenticated rq'"
  let ?s = "serve trace (snd (handle e2 (Some t') POST_auth_signout s2))"
  have "authenticateUser (sessions ?s) (Some t') = Inl (401, Err ''Not authenticated'')"
  proof (cases "t' = []")
    case True
    then show ?thesis by (simp add: authenticateUser_Inl)
  next
    case False
    from serve_keeps_closed [OF signout_closes [OF False] fresh] show ?thesis
      by (simp add: authenticateUser_Inl)
  qed
  from handle_refused [OF rq' this]
  show "handle e' (Some t') rq' ?s = ((401, Err ''Not authenticated''), ?s)" .
qed


theorem session_token_lifecycle_witness:
  "authenticated GET_routines
   \<and> handle (env_ok ''a'') None GET_routines example_server
       = ((401, Err ''Not authenticated''), example_server)
   \<and> handle (env_ok ''a'') None (POST_auth_signin ''alice'' ''secret'') example_server
       = ((200, Auth_ok alice ''a0''),
          example_server\<lparr>sessions := (sessions example_server)(''a0'' \<mapsto> alice)\<rparr>)
   \<and> fst (fst (handle (env_ok ''b'') (Some ''a0'') GET_routines
                  (serve [(env_ok ''c'', Some ''tok-bob'', POST_auth_signout)]
                     (example_server\<lparr>sessions := (sessions example_server)(''a0'' \<mapsto> alice)\<rparr>))))
       \<noteq> 401
   \<and> fst (handle (env_ok ''b'') (Some ''a0'') GET_routines
             (serve [(env_ok ''c'', None, POST_auth_signin ''bob'' ''secret'')]
                (snd (handle (env_ok ''d'') (Some ''a0'') POST_auth_signout
                        (example_server\<lparr>sessions := (sessions example_server)(''a0'' \<mapsto> alice)\<rparr>)))))
       = (401, Err ''Not authenticated'')"
proof -
  note inst = session_token_lifecycle
    [where rq = GET_routines and header = None and s = example_server and e = "env_ok ''a''"
       and ?e0.0 = "env_ok ''a''" and ?header0.0 = None and username = "''alice''"
       and password = "''secret''" and ?s0.0 = example_server and u = alice and t = "''a0''"
       and ?s1.0 = "example_server\<lparr>sessions := (sessions example_server)(''a0'' \<mapsto> alice)\<rparr>"
       and t' = "''a0''" and ?e2.0 = "env_ok ''d''"
       and ?s2.0 = "example_server\<lparr>sessions := (sessions example_server)(''a0'' \<mapsto> alice)\<rparr>"]
  have token: "generateSessionId (env_ok ''a'') = ''a0''"
    by (simp add: generateSessionId_def env_ok_def base36.simps digit36_def)
  have signin: "handle (env_ok ''a'') None (POST_auth_signin ''alice'' ''secret'') example_server
       = ((200, Auth_ok alice ''a0''),
          example_server\<lparr>sessions := (sessions example_server)(''a0'' \<mapsto> alice)\<rparr>)"
    by (simp add: signin_def open_session_def Let_def getUserByUsername_def
        example_server_def example_db_def env_ok_def alice_def
        generateSessionId_def base36.simps digit36_def)
  have refused: "handle (env_ok ''a'') None GET_routines example_server
       = ((401, Err ''Not authenticated''), example_server)"
    using inst [THEN conjunct1] by simp
  have admitted: "fst (fst (handle (env_ok ''b'') (Some ''a0'') GET_routines
                  (serve [(env_ok ''c'', Some ''tok-bob'', POST_auth_signout)]
                     (example_server\<lparr>sessions := (sessions example_server)(''a0'' \<mapsto> alice)\<rparr>))))
       \<noteq> 401"
    using inst [THEN conjunct2, THEN conjunct1, rule_format, OF signin,
        of "[(env_ok ''c'', Some ''tok-bob'', POST_auth_signout)]" GET_routines "env_ok ''b''"]
    by simp
  have fresh: "generateSessionId (env_ok ''c'') \<noteq> ''a0''"
    by (simp add: generateSessionId_def env_ok_def base36.simps digit36_def)
  have closed: "fst (handle (env_ok ''b'') (Some ''a0'') GET_routines
             (serve [(env_ok ''c'', None, POST_auth_signin ''bob'' ''secret'')]
                (snd (handle (env_ok ''d'') (Some ''a0'') POST_auth_signout
                        (example_server\<lparr>sessions := (sessions example_server)(''a0'' \<mapsto> alice)\<rparr>)))))
       = (401, Err ''Not authenticated'')"
    using inst [THEN conjunct2, THEN conjunct2, rule_format,
        of "[(env_ok ''c'', None, POST_auth_signin ''bob'' ''secret'')]" GET_routines "env_ok ''b''"]
      fresh
    by simp
  from refused signin admitted closed show ?thesis by simp
qed

section \<open>The client: what a flush sends\<close>

lemma add_sets_Nil [simp]: "add_sets [] s = s"
  by (simp add: add_sets_def)

lemma number_refused:
  assumes "is_weight b = Number x"
  shows "handle e header (POST_workout_sets b) s = ((401, Err ''Not authenticated''), s)
       \<or> handle e header (POST_workout_sets b) s = ((400, Err ''Invalid set data''), s)"
proof (cases "authenticateUser (sessions s) header")
  case (Inl r)
  then have "r = (401, Err ''Not authenticated'')"
    by (simp add: authenticateUser_Inl)
  with Inl show ?thesis
    by (simp add: behind_auth_def)
next
  case (Inr u)
  with assms show ?thesis
    by (simp add: behind_auth_def insertWorkoutSetSchema_def)
qed

lemma request_number_refused:
  assumes "is_weight b = Number x"
  shows "request e sid (POST_workout_sets b) s = (Inl Network_error, s)
       \<or> request e sid (POST_workout_sets b) s = (Inl (Request_failed ''Not authenticated''), s)
       \<or> request e sid (POST_workout_sets b) s = (Inl (Request_failed ''Invalid set data''), s)"
  using number_refused [OF assms, of e "session_header sid" s]
  unfolding request_def by (elim disjE) (simp_all del: handle.simps)

lemma create_each_refused:
  assumes "\<forall>b \<in> set bodies. \<exists>x. is_weight b = Number x"
  shows "snd (create_each es k sid bodies s) = s
       \<and> length (fst (create_each es k sid bodies s)) = length bodies
       \<and> (\<forall>r \<in> set (fst (create_each es k sid bodies s)). isl r)"
  using assms
proof (induction bodies arbitrary: k)
  case Nil
  then show ?case by simp
next
  case (Cons b bodies)
  then obtain x where "is_weight b = Number x" by auto
  from request_number_refused [OF this, of "es k" sid s] Cons show ?case
    by (auto simp: case_prod_beta)
qed

lemma setsToSave_numbers:
  "\<forall>b \<in> set (setsToSave aw ex inputs). \<exists>x. is_weight b = Number x"
  by (auto simp: setsToSave_def)

lemma promise_all_refused:
  "rs \<noteq> [] \<Longrightarrow> \<forall>r \<in> set rs. isl r \<Longrightarrow> \<exists>err. promise_all rs = Inl err"
  by (cases rs) (auto simp: isl_def)

lemma send_sets_server [simp]: "snd (send_sets es (v, s)) = s"
  by (simp add: send_sets_def create_each_refused setsToSave_numbers
      split: option.splits)

lemma send_sets_refused: "\<forall>r \<in> set (fst (send_sets es (v, s))). isl r"
  using create_each_refused [OF setsToSave_numbers]
  by (simp add: send_sets_def split: option.splits)

lemma settle_sets_refused:
  assumes "\<forall>r \<in> set results. isl r"
  shows "settle_sets results v = (if results = [] then v else log_error ''Error saving sets:'' v)"
  using promise_all_refused [OF _ assms] by (auto simp: settle_sets_def)

text \<open>\<open>saveAllSets\<close> is its two halves, one after the other.\<close>

lemma saveAllSets_halves:
  "saveAllSets es (v, s) = (settle_sets (fst (send_sets es (v, s))) v, snd (send_sets es (v, s)))"
proof -
  have "length (fst (create_each es k sid bodies s)) = length bodies" for k sid bodies s
    by (induction bodies arbitrary: k s) (simp_all add: case_prod_beta)
  then have "fst (create_each es k sid bodies s) = [] \<longleftrightarrow> bodies = []" for k sid bodies s
    by (metis length_0_conv)
  then show ?thesis
    by (simp add: saveAllSets_def send_sets_def settle_sets_def case_prod_beta Let_def
        split: option.splits sum.splits)
qed

lemma saveAllSets_server [simp]: "snd (saveAllSets es (v, s)) = s"
  by (simp add: saveAllSets_halves)

lemma saveAllSets_view:
  "fst (saveAllSets es (v, s)) = v \<or> fst (saveAllSets es (v, s)) = log_error ''Error saving sets:'' v"
  by (simp add: saveAllSets_halves settle_sets_refused [OF send_sets_refused])

lemma console_log_error [simp]: "console (log_error l v) = console v @ [l]"
  by (simp add: log_error_def)

lemma log_error_sel [simp]:
  "activeWorkout (log_error l v) = activeWorkout v"
  "currentExerciseIndex (log_error l v) = currentExerciseIndex v"
  "currentExercise (log_error l v) = currentExercise v"
  "setInputs (log_error l v) = setInputs v"
  "workoutSets (log_error l v) = workoutSets v"
  "sessionId (log_error l v) = sessionId v"
  "unmounted (log_error l v) = unmounted v"
  "suspended (log_error l v) = suspended v"
  by (simp_all add: log_error_def)

lemma init_inputs_sel [simp]:
  "console (init_inputs v) = console v"
  "activeWorkout (init_inputs v) = activeWorkout v"
  "currentExerciseIndex (init_inputs v) = currentExerciseIndex v"
  "workoutSets (init_inputs v) = workoutSets v"
  "sessionId (init_inputs v) = sessionId v"
  "suspended (init_inputs v) = suspended v"
  by (simp_all add: init_inputs_def split: option.splits)

lemma rerender_sel [simp]:
  "console (rerender b v) = console v"
  "activeWorkout (rerender b v) = activeWorkout v"
  "currentExerciseIndex (rerender b v) = currentExerciseIndex v"
  "workoutSets (rerender b v) = workoutSets v"
  "sessionId (rerender b v) = sessionId v"
  "suspended (rerender b v) = suspended v"
  by (simp_all add: rerender_def)

lemma suspend_sel [simp]:
  "console (suspend h v) = console v"
  "activeWorkout (suspend h v) = activeWorkout v"
  "currentExerciseIndex (suspend h v) = currentExerciseIndex v"
  "currentExercise (suspend h v) = currentExercise v"
  "setInputs (suspend h v) = setInputs v"
  "workoutSets (suspend h v) = workoutSets v"
  "sessionId (suspend h v) = sessionId v"
  "unmounted (suspend h v) = unmounted v"
  "suspended (suspend h v) = suspended v @ [h]"
  by (simp_all add: suspend_def)

lemma settle_sets_sel [simp]:
  "activeWorkout (settle_sets results v) = activeWorkout v"
  "currentExerciseIndex (settle_sets results v) = currentExerciseIndex v"
  "currentExercise (settle_sets results v) = currentExercise v"
  "setInputs (settle_sets results v) = setInputs v"
  "sessionId (settle_sets results v) = sessionId v"
  "unmounted (settle_sets results v) = unmounted v"
  "suspended (settle_sets results v) = suspended v"
  by (simp_all add: settle_sets_def split: sum.splits)

lemma saveAllSets_sel [simp]:
  "activeWorkout (fst (saveAllSets es (v, s))) = activeWorkout v"
  "currentExerciseIndex (fst (saveAllSets es (v, s))) = currentExerciseIndex v"
  "currentExercise (fst (saveAllSets es (v, s))) = currentExercise v"
  "setInputs (fst (saveAllSets es (v, s))) = setInputs v"
  "sessionId (fst (saveAllSets es (v, s))) = sessionId v"
  "unmounted (fst (saveAllSets es (v, s))) = unmounted v"
  "suspended (fst (saveAllSets es (v, s))) = suspended v"
  by (simp_all add: saveAllSets_halves)

lemma envs_ok_0: "envs_ok 0 = env_ok ''new-0''"
  by (simp add: envs_ok_def base36.simps digit36_def)

lemma sets_of_example:
  "setsToSave example_workout bench (setInputs example_view)
     = [\<lparr>is_workout_id = ''w-1'', is_exercise_name = ''Bench'', is_weight = Number 135,
         is_reps = 5, is_rpe = 5, is_set_number = 1\<rparr>]"
  by (simp add: setsToSave_def above_zero_def example_view_def example_workout_def bench_def
      enumerate_eq_zip)

lemma set_of_example_refused:
  "handle (env_ok new) (Some ''tok-alice'')
     (POST_workout_sets \<lparr>is_workout_id = ''w-1'', is_exercise_name = ''Bench'',
                         is_weight = Number 135, is_reps = 5, is_rpe = 5, is_set_number = 1\<rparr>)
     example_server
   = ((400, Err ''Invalid set data''), example_server)"
  by (simp add: behind_auth_def authenticateUser_def insertWorkoutSetSchema_def
      example_server_def env_ok_def)

lemma numeric_135: "numeric_5_2 135 = Some 135"
proof -
  have "\<lfloor>(135::rat) * 100 + 1 / 2\<rfloor> = 13500"
    by (simp add: floor_eq_iff)
  then show ?thesis
    by (simp add: numeric_5_2_def Let_def del: of_int_numeral)
qed

text \<open>The same set with the weight as a string is taken by the schema and stored.\<close>

lemma string_weight_is_stored:
  "handle (env_ok ''s-2'') (Some ''tok-alice'')
     (POST_workout_sets \<lparr>is_workout_id = ''w-1'', is_exercise_name = ''Bench'',
                         is_weight = Decimal_string 135, is_reps = 5, is_rpe = 5,
                         is_set_number = 1\<rparr>)
     example_server
   = ((200, Set_one \<lparr>s_id = ''s-2'', s_workout_id = ''w-1'', s_exercise_name = ''Bench'',
                     s_weight = 135, s_reps = 5, s_rpe = 5, s_set_number = 1\<rparr>),
      add_sets [\<lparr>s_id = ''s-2'', s_workout_id = ''w-1'', s_exercise_name = ''Bench'',
                 s_weight = 135, s_reps = 5, s_rpe = 5, s_set_number = 1\<rparr>] example_server)"
  by (simp add: behind_auth_def authenticateUser_def insertWorkoutSetSchema_def
      createWorkoutSet_def numeric_135 int4_def add_sets_def
      example_server_def example_db_def env_ok_def Let_def)

lemma send_sets_example:
  "send_sets envs_ok (example_view, example_server)
     = ([Inl (Request_failed ''Invalid set data'')], example_server)"
proof -
  have "sessionId example_view = Some ''tok-alice''"
    "activeWorkout example_view = Some example_workout"
    "currentExercise example_view = Some bench"
    by (simp_all add: example_view_def)
  then show ?thesis
    by (simp add: send_sets_def sets_of_example request_def session_header_def
        envs_ok_def set_of_example_refused del: handle.simps)
       (simp add: env_ok_def)
qed

text \<open>
  C1. Leaving an exercise with a populated slot. The first user of the example, on
  \<open>Bench\<close> with 135 x 5 in the first slot, goes to the next exercise while every request
  arrives and the database runs every statement. The flush sends one body, for set
  number 1, with the weight as the JSON number 135; the route answers 400
  \<open>Invalid set data\<close> and stores nothing; the handler logs \<open>Error saving sets:\<close> and moves
  the cursor to \<open>Dips\<close>, where the inputs are built anew. The table \<open>workout_sets\<close> is what it
  was, and the list of recorded sets is empty.
\<close>

theorem flush_on_leaving_is_refused:
  "setsToSave example_workout bench (setInputs example_view)
     = [\<lparr>is_workout_id = ''w-1'', is_exercise_name = ''Bench'', is_weight = Number 135,
         is_reps = 5, is_rpe = 5, is_set_number = 1\<rparr>]
   \<and> handle (envs_ok 0) (Some ''tok-alice'')
       (POST_workout_sets \<lparr>is_workout_id = ''w-1'', is_exercise_name = ''Bench'',
                           is_weight = Number 135, is_reps = 5, is_rpe = 5, is_set_number = 1\<rparr>)
       example_server
     = ((400, Err ''Invalid set data''), example_server)
   \<and> goToNextExercise envs_ok (example_view, example_server)
     = (example_view\<lparr>console := [''Error saving sets:''], currentExerciseIndex := 1,
                     currentExercise := Some dips,
                     setInputs := [\<lparr>weight = 0, reps = 0, rpe = 5\<rparr>]\<rparr>,
        example_server)
   \<and> workout_sets (db (snd (goToNextExercise envs_ok (example_view, example_server))))
     = [\<lparr>s_id = ''s-1'', s_workout_id = ''w-1'', s_exercise_name = ''Bench'',
         s_weight = 135, s_reps = 5, s_rpe = 7, s_set_number = 1\<rparr>]
   \<and> workoutSets (fst (goToNextExercise envs_ok (example_view, example_server))) = []"
proof -
  have flush: "saveAllSets envs_ok (example_view, example_server)
     = (example_view\<lparr>console := [''Error saving sets:'']\<rparr>, example_server)"
    by (simp add: saveAllSets_halves send_sets_example settle_sets_def log_error_def)
       (simp add: example_view_def)
  have moved: "goToNextExercise envs_ok (example_view, example_server)
     = (example_view\<lparr>console := [''Error saving sets:''], currentExerciseIndex := 1,
                     currentExercise := Some dips,
                     setInputs := [\<lparr>weight = 0, reps = 0, rpe = 5\<rparr>]\<rparr>,
        example_server)"
    by (simp add: goToNextExercise_def flush)
       (simp add: example_view_def example_workout_def rerender_def init_inputs_def at_index_def
          dips_def)
  show ?thesis
    by (simp add: sets_of_example envs_ok_def set_of_example_refused moved del: handle.simps)
       (simp add: example_view_def example_server_def example_db_def)
qed

section \<open>The client: starting a workout, and landing on an exercise\<close>

lemma handlers_keep_cursor:
  "activeWorkout (fst (saveSetOnBlur e k (v, s))) = activeWorkout v"
  "currentExerciseIndex (fst (saveSetOnBlur e k (v, s))) = currentExerciseIndex v"
  "activeWorkout (fst (deleteSet e x (v, s))) = activeWorkout v"
  "currentExerciseIndex (fst (deleteSet e x (v, s))) = currentExerciseIndex v"
  "activeWorkout (updateSetInput k c v) = activeWorkout v"
  "currentExerciseIndex (updateSetInput k c v) = currentExerciseIndex v"
  "activeWorkout (updateSet x c v) = activeWorkout v"
  "currentExerciseIndex (updateSet x c v) = currentExerciseIndex v"
  by (simp_all add: saveSetOnBlur_def deleteSet_def updateSetInput_def updateSet_def
      split: option.splits sum.splits prod.splits)

lemma createWorkout_Inr:
  assumes "createWorkout new userId b d = Inr (w, d')"
  shows "d' = d\<lparr>workouts := workouts d @ [w]\<rparr>
       \<and> w = \<lparr>w_id = new, w_user_id = userId, w_routine_id = iw_routine_id b,
              w_routine_name = iw_routine_name b, w_start_time = iw_start_time b,
              w_end_time = iw_end_time b\<rparr>
       \<and> new \<notin> set (map w_id (workouts d))"
  using assms by (auto simp: createWorkout_def Let_def split: if_splits)

lemma request_create_workout:
  assumes "request e sid (POST_workouts b) s = (Inr body, s')"
  shows "\<exists>u w. authenticateUser (sessions s) (session_header sid) = Inr u
           \<and> body = Workout_one w
           \<and> w = \<lparr>w_id = gen_uuid e, w_user_id = su_id u, w_routine_id = iw_routine_id b,
                  w_routine_name = iw_routine_name b, w_start_time = iw_start_time b,
                  w_end_time = iw_end_time b\<rparr>
           \<and> s' = s\<lparr>db := (db s)\<lparr>workouts := workouts (db s) @ [w]\<rparr>\<rparr>"
proof (cases "authenticateUser (sessions s) (session_header sid)")
  case (Inl r)
  then have "r = (401, Err ''Not authenticated'')"
    by (simp add: authenticateUser_Inl)
  with assms Inl show ?thesis
    by (auto simp: request_def behind_auth_def split: if_splits)
next
  case (Inr u)
  show ?thesis
  proof (cases "createWorkout (gen_uuid e) (su_id u) b (db s)")
    case (Inl err)
    with assms Inr show ?thesis
      by (auto simp: request_def behind_auth_def split: if_splits)
  next
    case (Inr p)
    obtain w d' where p: "p = (w, d')" by (cases p)
    from createWorkout_Inr [OF Inr [unfolded p]] assms
      \<open>authenticateUser (sessions s) (session_header sid) = Inr u\<close> Inr p
    show ?thesis
      by (auto simp: request_def behind_auth_def split: if_splits)
  qed
qed

lemma startWorkout_cases:
  assumes "user v \<noteq> None" and "selectedRoutineId v \<noteq> []"
    and "find (\<lambda>r. rt_id r = selectedRoutineId v) (routines_state v) = Some rt"
  shows "(\<exists>w s'. request e (sessionId v)
                    (POST_workouts \<lparr>iw_routine_id = Some (selectedRoutineId v),
                                    iw_routine_name = rt_name rt, iw_start_time = now,
                                    iw_end_time = None\<rparr>) s = (Inr (Workout_one w), s')
            \<and> startWorkout e now (v, s)
                = (init_inputs
                     (v\<lparr>activeWorkout := Some \<lparr>aw_id = w_id w, aw_routine_name = rt_name rt,
                                                aw_start_time = w_start_time w,
                                                aw_exercises = rt_exercises rt\<rparr>,
                        workoutSets := [], currentExerciseIndex := 0\<rparr>), s'))
       \<or> fst (startWorkout e now (v, s)) = log_error ''Error starting workout:'' v"
  using assms
  by (auto simp: startWorkout_def split: prod.splits sum.splits json_body.splits)

lemma init_inputs_lands:
  assumes "activeWorkout v = Some aw" and "at_index (aw_exercises aw) (currentExerciseIndex v) = Some x"
  shows "currentExercise (init_inputs v) = Some x"
    and "setInputs (init_inputs v) = replicate (nat (planned_sets x)) \<lparr>weight = 0, reps = 0, rpe = 5\<rparr>"
proof -
  from assms(2) have "aw_exercises aw \<noteq> []"
    by (auto simp: at_index_def split: if_splits)
  with assms show "currentExercise (init_inputs v) = Some x"
    and "setInputs (init_inputs v) = replicate (nat (planned_sets x)) \<lparr>weight = 0, reps = 0, rpe = 5\<rparr>"
    by (simp_all add: init_inputs_def)
qed

lemma startWorkout_view:
  "fst (startWorkout e now (v, s)) = v
   \<or> fst (startWorkout e now (v, s)) = log_error ''Error starting workout:'' v
   \<or> (\<exists>aw. fst (startWorkout e now (v, s))
              = init_inputs (v\<lparr>activeWorkout := Some aw, workoutSets := [],
                               currentExerciseIndex := 0\<rparr>))"
  by (auto simp: startWorkout_def split: option.splits prod.splits sum.splits json_body.splits)

lemma finishWorkout_view:
  "fst (finishWorkout es e now (v, s)) = v
   \<or> fst (finishWorkout es e now (v, s))
       = log_error ''Error finishing workout:'' (fst (saveAllSets es (v, s)))
   \<or> activeWorkout (fst (finishWorkout es e now (v, s))) = None"
  by (auto simp: finishWorkout_def case_prod_beta split: option.splits sum.splits)

lemma after_flush_sel [simp]:
  "activeWorkout (after_flush todo v) = activeWorkout v"
  by (simp add: after_flush_def split: follow_up.splits option.splits)

lemma rerender_lands:
  assumes "activeWorkout w = Some aw"
    and "activeWorkout w \<noteq> activeWorkout v \<or> currentExerciseIndex w \<noteq> currentExerciseIndex v"
    and "activeWorkout v0 = activeWorkout v" and "currentExerciseIndex v0 = currentExerciseIndex v"
    and "at_index (aw_exercises aw) (currentExerciseIndex w) = Some x"
  shows "currentExercise (rerender v0 w) = Some x
       \<and> setInputs (rerender v0 w)
           = replicate (nat (planned_sets x)) \<lparr>weight = 0, reps = 0, rpe = 5\<rparr>"
  using assms by (auto simp: rerender_def init_inputs_lands)

lemma flush_then_view:
  "fst (flush_then todo es (v, s)) = rerender v (after_flush todo v)
   \<or> (\<exists>h. fst (flush_then todo es (v, s)) = suspend h v)"
  by (auto simp: flush_then_def case_prod_beta)

lemma flush_then_lands:
  assumes "activeWorkout (fst (flush_then todo es (v, s))) = Some aw"
    and "activeWorkout (fst (flush_then todo es (v, s))) \<noteq> activeWorkout v
         \<or> currentExerciseIndex (fst (flush_then todo es (v, s))) \<noteq> currentExerciseIndex v"
    and "at_index (aw_exercises aw) (currentExerciseIndex (fst (flush_then todo es (v, s)))) = Some x"
  shows "currentExercise (fst (flush_then todo es (v, s))) = Some x
       \<and> setInputs (fst (flush_then todo es (v, s)))
           = replicate (nat (planned_sets x)) \<lparr>weight = 0, reps = 0, rpe = 5\<rparr>"
proof -
  from flush_then_view [of todo es v s] assms(2)
  have eq: "fst (flush_then todo es (v, s)) = rerender v (after_flush todo v)"
    by auto
  from assms show ?thesis
    unfolding eq by (intro rerender_lands [where v = v and aw = aw]) simp_all
qed

lemma invoke_lands:
  assumes "activeWorkout (fst (invoke h (v, s))) = Some aw"
    and "activeWorkout (fst (invoke h (v, s))) \<noteq> activeWorkout v
         \<or> currentExerciseIndex (fst (invoke h (v, s))) \<noteq> currentExerciseIndex v"
    and "at_index (aw_exercises aw) (currentExerciseIndex (fst (invoke h (v, s)))) = Some x"
  shows "currentExercise (fst (invoke h (v, s))) = Some x
       \<and> setInputs (fst (invoke h (v, s)))
           = replicate (nat (planned_sets x)) \<lparr>weight = 0, reps = 0, rpe = 5\<rparr>"
proof (cases h)
  case (Next es)
  with assms show ?thesis by (simp add: flush_then_lands)
next
  case (Previous es)
  with assms show ?thesis by (simp add: flush_then_lands split: if_splits)
next
  case (Select es i)
  with assms show ?thesis by (simp add: flush_then_lands split: if_splits)
next
  case (Save es)
  with assms show ?thesis by (simp add: flush_then_lands)
qed (use assms in \<open>auto simp: send_finish_def case_prod_beta
       split: option.splits if_splits\<close>)

lemma resume_lands:
  assumes "activeWorkout (fst (resume h e now (v0, s))) = Some aw"
    and "activeWorkout (fst (resume h e now (v0, s))) \<noteq> activeWorkout v
         \<or> currentExerciseIndex (fst (resume h e now (v0, s))) \<noteq> currentExerciseIndex v"
    and "activeWorkout v0 = activeWorkout v" and "currentExerciseIndex v0 = currentExerciseIndex v"
    and "at_index (aw_exercises aw) (currentExerciseIndex (fst (resume h e now (v0, s)))) = Some x"
  shows "currentExercise (fst (resume h e now (v0, s))) = Some x
       \<and> setInputs (fst (resume h e now (v0, s)))
           = replicate (nat (planned_sets x)) \<lparr>weight = 0, reps = 0, rpe = 5\<rparr>"
proof (cases h)
  case (Awaiting_workout rt result)
  show ?thesis
  proof (cases "\<exists>w. result = Inr (Workout_one w)")
    case True
    then obtain w where "result = Inr (Workout_one w)" by blast
    with assms Awaiting_workout show ?thesis
      by (simp add: init_inputs_lands)
  next
    case False
    then have "fst (resume h e now (v0, s)) = log_error ''Error starting workout:'' v0"
      unfolding Awaiting_workout by (cases result; simp split: json_body.splits)
    with assms show ?thesis by simp
  qed
next
  case (Awaiting_sets todo results)
  show ?thesis
  proof (cases "\<exists>workoutId. todo = Then_finish workoutId")
    case True
    with assms Awaiting_sets show ?thesis
      by (auto simp: send_finish_def case_prod_beta)
  next
    case False
    then have eq: "fst (resume h e now (v0, s)) = rerender v0 (after_flush todo (settle_sets results v0))"
      unfolding Awaiting_sets by (cases todo) simp_all
    from assms show ?thesis
      unfolding eq by (intro rerender_lands [where v = v and aw = aw]) simp_all
  qed
next
  case (Awaiting_set name k result)
  with assms show ?thesis by (cases result) simp_all
next
  case (Awaiting_delete setId result)
  with assms show ?thesis by (cases result) simp_all
next
  case (Awaiting_update result)
  with assms show ?thesis by (cases result) simp_all
qed

lemma landing:
  assumes "activeWorkout (fst (dispatch ev (v, s))) = Some aw"
    and "activeWorkout (fst (dispatch ev (v, s))) \<noteq> activeWorkout v
         \<or> currentExerciseIndex (fst (dispatch ev (v, s))) \<noteq> currentExerciseIndex v"
    and "at_index (aw_exercises aw) (currentExerciseIndex (fst (dispatch ev (v, s)))) = Some x"
  shows "currentExercise (fst (dispatch ev (v, s))) = Some x
       \<and> setInputs (fst (dispatch ev (v, s)))
           = replicate (nat (planned_sets x)) \<lparr>weight = 0, reps = 0, rpe = 5\<rparr>"
proof (cases ev)
  case (Start_workout e now)
  from startWorkout_view [of e now v s] assms show ?thesis
    unfolding Start_workout dispatch.simps
    by (elim disjE exE) (auto simp: init_inputs_lands)
next
  case (Finish_workout es e now)
  from finishWorkout_view [of es e now v s] assms show ?thesis
    unfolding Finish_workout dispatch.simps by auto
next
  case (Next_exercise es)
  with assms show ?thesis
    by (auto simp: goToNextExercise_def case_prod_beta rerender_def init_inputs_lands
        split: option.splits if_splits)
next
  case (Previous_exercise es)
  with assms show ?thesis
    by (auto simp: goToPreviousExercise_def case_prod_beta rerender_def init_inputs_lands
        split: option.splits if_splits)
next
  case (Select_exercise es i)
  with assms show ?thesis
    by (auto simp: selectExercise_def case_prod_beta rerender_def init_inputs_lands
        split: option.splits if_splits)
next
  case (Invoke h)
  with assms show ?thesis by (simp add: invoke_lands)
next
  case (Resume k e now)
  show ?thesis
  proof (cases "k < length (suspended v)")
    case True
    with assms show ?thesis
      unfolding Resume
      by (simp del: resume.simps)
         (rule resume_lands [where v = v and aw = aw]; simp del: resume.simps)
  next
    case False
    with assms Resume show ?thesis by simp
  qed
qed (use assms in \<open>auto simp: handlers_keep_cursor\<close>)

text \<open>
  C2. Starting, and landing on an exercise. (1) When the user is signed in, a routine of
  the list is selected and \<open>startWorkout\<close> logs no error, the table of workouts has one
  more row: owned by the session's user, for the selected routine, with \<open>start_time\<close> the
  clock reading sent and no \<open>end_time\<close>; the view holds that workout with the routine's
  exercises, and the cursor is 0. (2) Whenever an event leaves a workout running with the
  workout or the cursor changed and the cursor on one of its exercises, that exercise is
  the current one and the inputs are \<open>planned_sets\<close> slots (none when that is negative),
  each with weight 0, reps 0 and RPE 5.
\<close>

theorem start_and_landing:
  "(user v \<noteq> None \<and> selectedRoutineId v \<noteq> []
      \<and> find (\<lambda>r. rt_id r = selectedRoutineId v) (routines_state v) = Some rt
      \<and> console (fst (startWorkout e now (v, s))) = console v \<longrightarrow>
      (\<exists>u w. authenticateUser (sessions s) (session_header (sessionId v)) = Inr u
          \<and> workouts (db (snd (startWorkout e now (v, s)))) = workouts (db s) @ [w]
          \<and> w_user_id w = su_id u \<and> w_routine_id w = Some (selectedRoutineId v)
          \<and> w_routine_name w = rt_name rt \<and> w_start_time w = now \<and> w_end_time w = None
          \<and> activeWorkout (fst (startWorkout e now (v, s)))
              = Some \<lparr>aw_id = w_id w, aw_routine_name = rt_name rt, aw_start_time = now,
                      aw_exercises = rt_exercises rt\<rparr>)
      \<and> currentExerciseIndex (fst (startWorkout e now (v, s))) = 0)
   \<and> (activeWorkout (fst (dispatch ev (v, s))) = Some aw
      \<and> (activeWorkout (fst (dispatch ev (v, s))) \<noteq> activeWorkout v
         \<or> currentExerciseIndex (fst (dispatch ev (v, s))) \<noteq> currentExerciseIndex v)
      \<and> at_index (aw_exercises aw) (currentExerciseIndex (fst (dispatch ev (v, s)))) = Some x \<longrightarrow>
      currentExercise (fst (dispatch ev (v, s))) = Some x
      \<and> setInputs (fst (dispatch ev (v, s)))
          = replicate (nat (planned_sets x)) \<lparr>weight = 0, reps = 0, rpe = 5\<rparr>)"
proof (rule conjI; rule impI; (elim conjE)?)
  assume guard: "user v \<noteq> None" "selectedRoutineId v \<noteq> []"
    "find (\<lambda>r. rt_id r = selectedRoutineId v) (routines_state v) = Some rt"
    and quiet: "console (fst (startWorkout e now (v, s))) = console v"
  from startWorkout_cases [OF guard, of e now s] quiet obtain w s' where
    call: "request e (sessionId v)
             (POST_workouts \<lparr>iw_routine_id = Some (selectedRoutineId v),
                             iw_routine_name = rt_name rt, iw_start_time = now,
                             iw_end_time = None\<rparr>) s = (Inr (Workout_one w), s')"
    and start: "startWorkout e now (v, s)
                = (init_inputs
                     (v\<lparr>activeWorkout := Some \<lparr>aw_id = w_id w, aw_routine_name = rt_name rt,
                                                aw_start_time = w_start_time w,
                                                aw_exercises = rt_exercises rt\<rparr>,
                        workoutSets := [], currentExerciseIndex := 0\<rparr>), s')"
    by auto
  from request_create_workout [OF call] obtain u where
    "authenticateUser (sessions s) (session_header (sessionId v)) = Inr u"
    "w = \<lparr>w_id = gen_uuid e, w_user_id = su_id u, w_routine_id = Some (selectedRoutineId v),
          w_routine_name = rt_name rt, w_start_time = now, w_end_time = None\<rparr>"
    "s' = s\<lparr>db := (db s)\<lparr>workouts := workouts (db s) @ [w]\<rparr>\<rparr>"
    by auto
  then show "(\<exists>u w. authenticateUser (sessions s) (session_header (sessionId v)) = Inr u
          \<and> workouts (db (snd (startWorkout e now (v, s)))) = workouts (db s) @ [w]
          \<and> w_user_id w = su_id u \<and> w_routine_id w = Some (selectedRoutineId v)
          \<and> w_routine_name w = rt_name rt \<and> w_start_time w = now \<and> w_end_time w = None
          \<and> activeWorkout (fst (startWorkout e now (v, s)))
              = Some \<lparr>aw_id = w_id w, aw_routine_name = rt_name rt, aw_start_time = now,
                      aw_exercises = rt_exercises rt\<rparr>)
      \<and> currentExerciseIndex (fst (startWorkout e now (v, s))) = 0"
    unfolding start by (intro conjI exI [of _ u] exI [of _ w]) simp_all
next
  assume "activeWorkout (fst (dispatch ev (v, s))) = Some aw"
    and "activeWorkout (fst (dispatch ev (v, s))) \<noteq> activeWorkout v
         \<or> currentExerciseIndex (fst (dispatch ev (v, s))) \<noteq> currentExerciseIndex v"
    and "at_index (aw_exercises aw) (currentExerciseIndex (fst (dispatch ev (v, s)))) = Some x"
  then show "currentExercise (fst (dispatch ev (v, s))) = Some x
      \<and> setInputs (fst (dispatch ev (v, s)))
          = replicate (nat (planned_sets x)) \<lparr>weight = 0, reps = 0, rpe = 5\<rparr>"
    by (rule landing)
qed

lemma start_example:
  "startWorkout (env_ok ''w-2'') 5000 (example_idle, example_server)
   = (example_view
        \<lparr>activeWorkout := Some \<lparr>aw_id = ''w-2'', aw_routine_name = ''Push'',
                                 aw_start_time = 5000, aw_exercises = [bench, dips]\<rparr>,
         setInputs := [\<lparr>weight = 0, reps = 0, rpe = 5\<rparr>, \<lparr>weight = 0, reps = 0, rpe = 5\<rparr>]\<rparr>,
      example_server
        \<lparr>db := example_db
           \<lparr>workouts := workouts example_db
              @ [\<lparr>w_id = ''w-2'', w_user_id = ''u-alice'', w_routine_id = Some ''r-push'',
                  w_routine_name = ''Push'', w_start_time = 5000, w_end_time = None\<rparr>]\<rparr>\<rparr>)"
  by (simp add: startWorkout_def request_def behind_auth_def authenticateUser_def
      session_header_def createWorkout_def init_inputs_def at_index_def
      example_idle_def example_view_def example_server_def example_db_def
      bench_def dips_def env_ok_def alice_def Let_def eval_nat_numeral)

theorem start_and_landing_witness:
  "user example_idle \<noteq> None \<and> selectedRoutineId example_idle \<noteq> []
   \<and> find (\<lambda>r. rt_id r = selectedRoutineId example_idle) (routines_state example_idle)
       = Some \<lparr>rt_id = ''r-push'', rt_name = ''Push'', rt_exercises = [bench, dips]\<rparr>
   \<and> console (fst (startWorkout (env_ok ''w-2'') 5000 (example_idle, example_server)))
       = console example_idle
   \<and> workouts (db (snd (startWorkout (env_ok ''w-2'') 5000 (example_idle, example_server))))
       = workouts example_db
         @ [\<lparr>w_id = ''w-2'', w_user_id = ''u-alice'', w_routine_id = Some ''r-push'',
             w_routine_name = ''Push'', w_start_time = 5000, w_end_time = None\<rparr>]
   \<and> currentExerciseIndex (fst (startWorkout (env_ok ''w-2'') 5000 (example_idle, example_server)))
       = 0
   \<and> currentExercise (fst (dispatch (Start_workout (env_ok ''w-2'') 5000)
                              (example_idle, example_server))) = Some bench
   \<and> setInputs (fst (dispatch (Start_workout (env_ok ''w-2'') 5000)
                         (example_idle, example_server)))
       = [\<lparr>weight = 0, reps = 0, rpe = 5\<rparr>, \<lparr>weight = 0, reps = 0, rpe = 5\<rparr>]"
proof -
  note inst = start_and_landing
    [where v = example_idle and s = example_server and e = "env_ok ''w-2''" and now = 5000
       and rt = "\<lparr>rt_id = ''r-push'', rt_name = ''Push'', rt_exercises = [bench, dips]\<rparr>"
       and ev = "Start_workout (env_ok ''w-2'') 5000"
       and aw = "\<lparr>aw_id = ''w-2'', aw_routine_name = ''Push'', aw_start_time = 5000,
                  aw_exercises = [bench, dips]\<rparr>"
       and x = bench]
  have guard: "user example_idle \<noteq> None" "selectedRoutineId example_idle \<noteq> []"
    "find (\<lambda>r. rt_id r = selectedRoutineId example_idle) (routines_state example_idle)
       = Some \<lparr>rt_id = ''r-push'', rt_name = ''Push'', rt_exercises = [bench, dips]\<rparr>"
    by (simp_all add: example_idle_def example_view_def)
  have quiet: "console (fst (startWorkout (env_ok ''w-2'') 5000 (example_idle, example_server)))
       = console example_idle"
    by (simp only: start_example fst_conv) (simp add: example_idle_def example_view_def)
  have rows: "workouts (db (snd (startWorkout (env_ok ''w-2'') 5000 (example_idle, example_server))))
       = workouts example_db
         @ [\<lparr>w_id = ''w-2'', w_user_id = ''u-alice'', w_routine_id = Some ''r-push'',
             w_routine_name = ''Push'', w_start_time = 5000, w_end_time = None\<rparr>]"
    by (simp only: start_example snd_conv) simp
  have active: "activeWorkout (fst (dispatch (Start_workout (env_ok ''w-2'') 5000)
                              (example_idle, example_server)))
       = Some \<lparr>aw_id = ''w-2'', aw_routine_name = ''Push'', aw_start_time = 5000,
                  aw_exercises = [bench, dips]\<rparr>"
    and changed: "activeWorkout (fst (dispatch (Start_workout (env_ok ''w-2'') 5000)
                              (example_idle, example_server))) \<noteq> activeWorkout example_idle"
    and on: "at_index [bench, dips]
               (currentExerciseIndex (fst (dispatch (Start_workout (env_ok ''w-2'') 5000)
                              (example_idle, example_server)))) = Some bench"
    by (simp_all only: dispatch.simps start_example fst_conv)
       (simp_all add: example_idle_def example_view_def at_index_def)
  from inst [THEN conjunct1] guard quiet
  have zero: "currentExerciseIndex (fst (startWorkout (env_ok ''w-2'') 5000 (example_idle, example_server)))
       = 0"
    by blast
  from inst [THEN conjunct2] active changed on
  have "currentExercise (fst (dispatch (Start_workout (env_ok ''w-2'') 5000)
                              (example_idle, example_server))) = Some bench"
    and "setInputs (fst (dispatch (Start_workout (env_ok ''w-2'') 5000)
                         (example_idle, example_server)))
       = replicate (nat (planned_sets bench)) \<lparr>weight = 0, reps = 0, rpe = 5\<rparr>"
    by simp_all
  with guard quiet rows zero show ?thesis
    by (simp add: bench_def eval_nat_numeral)
qed

section \<open>The client: calls that fail\<close>

lemma saveAllSets_failed:
  assumes "activeWorkout v = Some aw" and "currentExercise v = Some ex"
    and "promise_all (fst (create_each es 0 (sessionId v) (setsToSave aw ex (setInputs v)) s)) = Inl err"
  shows "saveAllSets es (v, s)
         = (log_error ''Error saving sets:'' v,
            snd (create_each es 0 (sessionId v) (setsToSave aw ex (setInputs v)) s))"
proof -
  from assms(3) have "setsToSave aw ex (setInputs v) \<noteq> []"
    by auto
  with assms show ?thesis
    by (simp add: saveAllSets_def case_prod_beta)
qed

text \<open>
  C6. A call that fails. In a running workout with an exercise on display: (1) when one
  of the calls of a flush fails, \<open>saveAllSets\<close> changes the view by one logged line and
  nothing else, the server keeps whatever rows the other calls added, and a next goes on
  as if nothing had happened: the cursor advances where it can, and the list of recorded
  sets is what it was. (2) When the call that ends the workout fails, \<open>finishWorkout\<close>
  leaves the view as the flush left it, with one logged line: the workout is still
  running, the cursor and the inputs are where they were, and the sets the flush recorded
  stay recorded. Nothing is undone in either case.
\<close>

theorem failed_calls_are_logged_and_ignored:
  assumes "activeWorkout v = Some aw" and "currentExercise v = Some ex"
  shows "(promise_all (fst (create_each es 0 (sessionId v) (setsToSave aw ex (setInputs v)) s))
            = Inl err \<longrightarrow>
            fst (saveAllSets es (v, s)) = log_error ''Error saving sets:'' v
            \<and> (\<exists>rows. snd (saveAllSets es (v, s)) = add_sets rows s)
            \<and> snd (goToNextExercise es (v, s)) = snd (saveAllSets es (v, s))
            \<and> console (fst (goToNextExercise es (v, s))) = console v @ [''Error saving sets:'']
            \<and> workoutSets (fst (goToNextExercise es (v, s))) = workoutSets v
            \<and> currentExerciseIndex (fst (goToNextExercise es (v, s)))
                = (if currentExerciseIndex v < int (length (aw_exercises aw)) - 1
                   then currentExerciseIndex v + 1 else currentExerciseIndex v))
       \<and> (fst (request e (sessionId v) (PATCH_workouts (aw_id aw) (end_time_only now))
                  (snd (saveAllSets es (v, s)))) = Inl err' \<longrightarrow>
            finishWorkout es e now (v, s)
              = (log_error ''Error finishing workout:'' (fst (saveAllSets es (v, s))),
                 snd (request e (sessionId v) (PATCH_workouts (aw_id aw) (end_time_only now))
                        (snd (saveAllSets es (v, s)))))
            \<and> activeWorkout (fst (finishWorkout es e now (v, s))) = Some aw
            \<and> currentExerciseIndex (fst (finishWorkout es e now (v, s))) = currentExerciseIndex v
            \<and> setInputs (fst (finishWorkout es e now (v, s))) = setInputs v
            \<and> workoutSets (fst (finishWorkout es e now (v, s)))
                = workoutSets (fst (saveAllSets es (v, s))))"
proof (rule conjI; rule impI)
  assume failed: "promise_all (fst (create_each es 0 (sessionId v) (setsToSave aw ex (setInputs v)) s))
            = Inl err"
  note flush = saveAllSets_failed [OF assms failed]
  have "\<exists>rows. snd (saveAllSets es (v, s)) = add_sets rows s"
    by (intro exI [of _ "[]"]) simp
  moreover from assms(1) have "snd (goToNextExercise es (v, s)) = snd (saveAllSets es (v, s))"
    by (simp add: goToNextExercise_def case_prod_beta)
  moreover from assms(1) have "console (fst (goToNextExercise es (v, s))) = console v @ [''Error saving sets:'']"
    "workoutSets (fst (goToNextExercise es (v, s))) = workoutSets v"
    "currentExerciseIndex (fst (goToNextExercise es (v, s)))
                = (if currentExerciseIndex v < int (length (aw_exercises aw)) - 1
                   then currentExerciseIndex v + 1 else currentExerciseIndex v)"
    by (simp_all add: goToNextExercise_def flush)
  ultimately show "fst (saveAllSets es (v, s)) = log_error ''Error saving sets:'' v
            \<and> (\<exists>rows. snd (saveAllSets es (v, s)) = add_sets rows s)
            \<and> snd (goToNextExercise es (v, s)) = snd (saveAllSets es (v, s))
            \<and> console (fst (goToNextExercise es (v, s))) = console v @ [''Error saving sets:'']
            \<and> workoutSets (fst (goToNextExercise es (v, s))) = workoutSets v
            \<and> currentExerciseIndex (fst (goToNextExercise es (v, s)))
                = (if currentExerciseIndex v < int (length (aw_exercises aw)) - 1
                   then currentExerciseIndex v + 1 else currentExerciseIndex v)"
    by (simp add: flush)
next
  assume failed: "fst (request e (sessionId v) (PATCH_workouts (aw_id aw) (end_time_only now))
                  (snd (saveAllSets es (v, s)))) = Inl err'"
  with assms(1) have fin: "finishWorkout es e now (v, s)
              = (log_error ''Error finishing workout:'' (fst (saveAllSets es (v, s))),
                 snd (request e (sessionId v) (PATCH_workouts (aw_id aw) (end_time_only now))
                        (snd (saveAllSets es (v, s)))))"
    by (simp add: finishWorkout_def case_prod_beta)
  with assms(1) show "finishWorkout es e now (v, s)
              = (log_error ''Error finishing workout:'' (fst (saveAllSets es (v, s))),
                 snd (request e (sessionId v) (PATCH_workouts (aw_id aw) (end_time_only now))
                        (snd (saveAllSets es (v, s)))))
            \<and> activeWorkout (fst (finishWorkout es e now (v, s))) = Some aw
            \<and> currentExerciseIndex (fst (finishWorkout es e now (v, s))) = currentExerciseIndex v
            \<and> setInputs (fst (finishWorkout es e now (v, s))) = setInputs v
            \<and> workoutSets (fst (finishWorkout es e now (v, s)))
                = workoutSets (fst (saveAllSets es (v, s)))"
    by simp
qed

lemma create_each_down:
  "create_each (\<lambda>k. env_down) 0 (sessionId example_view)
     (setsToSave example_workout bench (setInputs example_view)) example_server
   = ([Inl Network_error], example_server)"
  by (simp add: setsToSave_def above_zero_def request_def env_down_def env_ok_def
      example_view_def enumerate_eq_zip)

theorem failed_calls_are_logged_and_ignored_witness:
  "activeWorkout example_view = Some example_workout
   \<and> currentExercise example_view = Some bench
   \<and> promise_all (fst (create_each (\<lambda>k. env_down) 0 (sessionId example_view)
                         (setsToSave example_workout bench (setInputs example_view))
                         example_server)) = Inl Network_error
   \<and> console (fst (goToNextExercise (\<lambda>k. env_down) (example_view, example_server)))
       = [''Error saving sets:'']
   \<and> currentExerciseIndex (fst (goToNextExercise (\<lambda>k. env_down) (example_view, example_server)))
       = 1
   \<and> workoutSets (fst (goToNextExercise (\<lambda>k. env_down) (example_view, example_server))) = []
   \<and> fst (request env_down (sessionId example_view)
             (PATCH_workouts (aw_id example_workout) (end_time_only 9000))
             (snd (saveAllSets envs_ok (example_view, example_server)))) = Inl Network_error
   \<and> activeWorkout (fst (finishWorkout envs_ok env_down 9000 (example_view, example_server)))
       = Some example_workout
   \<and> workoutSets (fst (finishWorkout envs_ok env_down 9000 (example_view, example_server)))
       = workoutSets (fst (saveAllSets envs_ok (example_view, example_server)))"
proof -
  have active: "activeWorkout example_view = Some example_workout"
    and current: "currentExercise example_view = Some bench"
    by (simp_all add: example_view_def)
  have flush: "promise_all (fst (create_each (\<lambda>k. env_down) 0 (sessionId example_view)
                         (setsToSave example_workout bench (setInputs example_view))
                         example_server)) = Inl Network_error"
    by (simp add: create_each_down)
  have patch: "fst (request env_down (sessionId example_view)
             (PATCH_workouts (aw_id example_workout) (end_time_only 9000))
             (snd (saveAllSets envs_ok (example_view, example_server)))) = Inl Network_error"
    by (simp add: request_def env_down_def)
  have facts: "console example_view = []" "workoutSets example_view = []"
    "currentExerciseIndex example_view = 0" "length (aw_exercises example_workout) = 2"
    by (simp_all add: example_view_def example_workout_def)
  note inst = failed_calls_are_logged_and_ignored [OF active current]
  from inst [where es = "\<lambda>k. env_down" and s = example_server and err = Network_error,
      THEN conjunct1] flush facts
  have "console (fst (goToNextExercise (\<lambda>k. env_down) (example_view, example_server)))
       = [''Error saving sets:'']"
    and "currentExerciseIndex (fst (goToNextExercise (\<lambda>k. env_down) (example_view, example_server)))
       = 1"
    and "workoutSets (fst (goToNextExercise (\<lambda>k. env_down) (example_view, example_server))) = []"
    by simp_all
  moreover
  from inst [where es = envs_ok and s = example_server and e = env_down and now = 9000
      and err' = Network_error, THEN conjunct2] patch active
  have "activeWorkout (fst (finishWorkout envs_ok env_down 9000 (example_view, example_server)))
       = Some example_workout"
    and "workoutSets (fst (finishWorkout envs_ok env_down 9000 (example_view, example_server)))
       = workoutSets (fst (saveAllSets envs_ok (example_view, example_server)))"
    by simp_all
  ultimately show ?thesis
    using active current flush patch by simp
qed

section \<open>The client: handlers started while others wait\<close>

lemma send_sets_suspend [simp]: "send_sets es (suspend h v, s) = send_sets es (v, s)"
  by (simp add: send_sets_def suspend_def split: option.splits)

lemma send_sets_last:
  "send_sets envs_ok (example_last, example_server)
     = ([Inl (Request_failed ''Invalid set data'')], example_server)"
proof -
  have "sessionId example_last = Some ''tok-alice''"
    "activeWorkout example_last = Some example_workout"
    "currentExercise example_last = Some dips"
    "setInputs example_last = [\<lparr>weight = 0, reps = 12, rpe = 8\<rparr>]"
    by (simp_all add: example_last_def example_view_def)
  then show ?thesis
    by (simp add: send_sets_def setsToSave_def above_zero_def enumerate_eq_zip request_def
        session_header_def behind_auth_def authenticateUser_def insertWorkoutSetSchema_def
        envs_ok_def example_server_def)
       (simp add: env_ok_def)
qed

lemma two_nexts_example:
  "run [Invoke (Next envs_ok), Invoke (Next envs_ok),
        Resume 0 (env_ok ''a'') 0, Resume 0 (env_ok ''b'') 0] (example_view, example_server)
   = (example_view\<lparr>console := [''Error saving sets:'', ''Error saving sets:''],
                   currentExerciseIndex := 2, currentExercise := Some dips,
                   setInputs := [\<lparr>weight = 0, reps = 0, rpe = 5\<rparr>], unmounted := True\<rparr>,
      example_server)"
proof -
  let ?h = "Awaiting_sets (Then_next 0 (Some example_workout))
              [Inl (Request_failed ''Invalid set data'')]"
  have facts: "unmounted example_view = False" "currentExerciseIndex example_view = 0"
    "activeWorkout example_view = Some example_workout" "suspended example_view = []"
    by (simp_all add: example_view_def)
  have one: "dispatch (Invoke (Next envs_ok)) (example_view, example_server)
               = (suspend ?h example_view, example_server)"
    by (simp add: flush_then_def send_sets_example facts)
  have two: "dispatch (Invoke (Next envs_ok)) (suspend ?h example_view, example_server)
               = (suspend ?h (suspend ?h example_view), example_server)"
    by (simp add: flush_then_def send_sets_example facts)
  have three: "dispatch (Resume 0 (env_ok ''a'') 0)
                 (suspend ?h (suspend ?h example_view), example_server)
               = (example_view\<lparr>console := [''Error saving sets:''],
                     currentExerciseIndex := 1, currentExercise := Some dips,
                     setInputs := [\<lparr>weight = 0, reps = 0, rpe = 5\<rparr>],
                     suspended := [?h]\<rparr>, example_server)"
    by (simp add: facts settle_sets_def after_flush_def log_error_def suspend_def)
       (simp add: example_view_def example_workout_def rerender_def init_inputs_def
          at_index_def dips_def)
  have four: "dispatch (Resume 0 (env_ok ''b'') 0)
                 (example_view\<lparr>console := [''Error saving sets:''],
                     currentExerciseIndex := 1, currentExercise := Some dips,
                     setInputs := [\<lparr>weight = 0, reps = 0, rpe = 5\<rparr>],
                     suspended := [?h]\<rparr>, example_server)
               = (example_view\<lparr>console := [''Error saving sets:'', ''Error saving sets:''],
                   currentExerciseIndex := 2, currentExercise := Some dips,
                   setInputs := [\<lparr>weight = 0, reps = 0, rpe = 5\<rparr>], unmounted := True\<rparr>,
                  example_server)"
    by (simp add: settle_sets_def after_flush_def log_error_def)
       (simp add: example_view_def example_workout_def rerender_def init_inputs_def
          at_index_def)
  show ?thesis
    by (simp add: one two three four facts del: dispatch.simps)
qed


lemma two_previous_example:
  "run [Invoke (Previous envs_ok), Invoke (Previous envs_ok),
        Resume 0 (env_ok ''a'') 0, Resume 0 (env_ok ''b'') 0] (example_last, example_server)
   = (example_last\<lparr>console := [''Error saving sets:'', ''Error saving sets:''],
                   currentExerciseIndex := - 1, currentExercise := Some bench,
                   setInputs := [\<lparr>weight = 0, reps = 0, rpe = 5\<rparr>, \<lparr>weight = 0, reps = 0, rpe = 5\<rparr>],
                   unmounted := True\<rparr>,
      example_server)"
proof -
  let ?h = "Awaiting_sets Then_previous [Inl (Request_failed ''Invalid set data'')]"
  have facts: "unmounted example_last = False" "currentExerciseIndex example_last = 1"
    "activeWorkout example_last = Some example_workout" "suspended example_last = []"
    by (simp_all add: example_last_def example_view_def)
  have one: "dispatch (Invoke (Previous envs_ok)) (example_last, example_server)
               = (suspend ?h example_last, example_server)"
    by (simp add: flush_then_def send_sets_last facts)
  have two: "dispatch (Invoke (Previous envs_ok)) (suspend ?h example_last, example_server)
               = (suspend ?h (suspend ?h example_last), example_server)"
    by (simp add: flush_then_def send_sets_last facts)
  have three: "dispatch (Resume 0 (env_ok ''a'') 0)
                 (suspend ?h (suspend ?h example_last), example_server)
               = (example_last\<lparr>console := [''Error saving sets:''],
                     currentExerciseIndex := 0, currentExercise := Some bench,
                     setInputs := [\<lparr>weight = 0, reps = 0, rpe = 5\<rparr>, \<lparr>weight = 0, reps = 0, rpe = 5\<rparr>],
                     suspended := [?h]\<rparr>, example_server)"
    by (simp add: facts settle_sets_def after_flush_def log_error_def suspend_def)
       (simp add: example_last_def example_view_def example_workout_def rerender_def
          init_inputs_def at_index_def bench_def eval_nat_numeral)
  have four: "dispatch (Resume 0 (env_ok ''b'') 0)
                 (example_last\<lparr>console := [''Error saving sets:''],
                     currentExerciseIndex := 0, currentExercise := Some bench,
                     setInputs := [\<lparr>weight = 0, reps = 0, rpe = 5\<rparr>, \<lparr>weight = 0, reps = 0, rpe = 5\<rparr>],
                     suspended := [?h]\<rparr>, example_server)
               = (example_last\<lparr>console := [''Error saving sets:'', ''Error saving sets:''],
                   currentExerciseIndex := - 1, currentExercise := Some bench,
                   setInputs := [\<lparr>weight = 0, reps = 0, rpe = 5\<rparr>, \<lparr>weight = 0, reps = 0, rpe = 5\<rparr>],
                   unmounted := True\<rparr>,
                  example_server)"
    by (simp add: settle_sets_def after_flush_def log_error_def)
       (simp add: example_last_def example_view_def example_workout_def rerender_def
          init_inputs_def at_index_def)
  show ?thesis
    by (simp add: one two three four facts del: dispatch.simps)
qed

lemma next_example:
  "goToNextExercise envs_ok (example_view, example_server)
     = (example_view\<lparr>console := [''Error saving sets:''], currentExerciseIndex := 1,
                     currentExercise := Some dips,
                     setInputs := [\<lparr>weight = 0, reps = 0, rpe = 5\<rparr>]\<rparr>,
        example_server)"
proof -
  have "saveAllSets envs_ok (example_view, example_server)
     = (example_view\<lparr>console := [''Error saving sets:'']\<rparr>, example_server)"
    by (simp add: saveAllSets_halves send_sets_example settle_sets_def log_error_def)
       (simp add: example_view_def)
  then show ?thesis
    by (simp add: goToNextExercise_def)
       (simp add: example_view_def example_workout_def rerender_def init_inputs_def at_index_def
          dips_def)
qed

lemma next_twice_example:
  "run [Next_exercise envs_ok, Next_exercise envs_ok] (example_view, example_server)
     = (example_view\<lparr>console := [''Error saving sets:''], currentExerciseIndex := 1,
                     currentExercise := Some dips,
                     setInputs := [\<lparr>weight = 0, reps = 0, rpe = 5\<rparr>]\<rparr>,
        example_server)"
proof -
  have "goToNextExercise envs_ok
          (example_view\<lparr>console := [''Error saving sets:''], currentExerciseIndex := 1,
                     currentExercise := Some dips,
                     setInputs := [\<lparr>weight = 0, reps = 0, rpe = 5\<rparr>]\<rparr>,
           example_server)
     = (example_view\<lparr>console := [''Error saving sets:''], currentExerciseIndex := 1,
                     currentExercise := Some dips,
                     setInputs := [\<lparr>weight = 0, reps = 0, rpe = 5\<rparr>]\<rparr>,
        example_server)"
    by (simp add: goToNextExercise_def saveAllSets_def setsToSave_def above_zero_def
        enumerate_eq_zip example_view_def example_workout_def Let_def)
  then show ?thesis
    by (simp add: next_example) (simp add: example_view_def)
qed

text \<open>
  C9. Two clicks on Next. The first user of the example is on the first of two exercises,
  with a populated slot. Next is clicked, and clicked again before the flush of the first
  click is answered: both handlers were started in the render that shows index 0, both
  pass the guard \<open>0 < 2 - 1\<close> when they go on, and each adds one to the index it finds. The
  cursor is 2, on no exercise of the workout; the effect reads \<open>planned_sets\<close> of an
  exercise that is not there and the component is unmounted. Two clicks on Previous from
  the second exercise leave the cursor at -1 in the same way. When the second click comes
  after the first handler has run to its end, the cursor stays at 1.
\<close>

theorem second_click_leaves_the_bounds:
  "cursor_in_bounds example_view
   \<and> aw_exercises example_workout = [bench, dips]
   \<and> run [Invoke (Next envs_ok), Invoke (Next envs_ok),
          Resume 0 (env_ok ''a'') 0, Resume 0 (env_ok ''b'') 0] (example_view, example_server)
     = (example_view\<lparr>console := [''Error saving sets:'', ''Error saving sets:''],
                     currentExerciseIndex := 2, currentExercise := Some dips,
                     setInputs := [\<lparr>weight = 0, reps = 0, rpe = 5\<rparr>], unmounted := True\<rparr>,
        example_server)
   \<and> \<not> cursor_in_bounds
         (fst (run [Invoke (Next envs_ok), Invoke (Next envs_ok),
                    Resume 0 (env_ok ''a'') 0, Resume 0 (env_ok ''b'') 0]
                 (example_view, example_server)))
   \<and> cursor_in_bounds example_last
   \<and> currentExerciseIndex
        (fst (run [Invoke (Previous envs_ok), Invoke (Previous envs_ok),
                   Resume 0 (env_ok ''a'') 0, Resume 0 (env_ok ''b'') 0]
                (example_last, example_server))) = - 1
   \<and> \<not> cursor_in_bounds
         (fst (run [Invoke (Previous envs_ok), Invoke (Previous envs_ok),
                    Resume 0 (env_ok ''a'') 0, Resume 0 (env_ok ''b'') 0]
                 (example_last, example_server)))
   \<and> currentExerciseIndex
        (fst (run [Next_exercise envs_ok, Next_exercise envs_ok] (example_view, example_server)))
       = 1"
  by (simp only: two_nexts_example two_previous_example next_twice_example fst_conv)
     (simp add: cursor_in_bounds_def example_last_def example_view_def example_workout_def)

section \<open>The client: a handler and its two halves\<close>

text \<open>
  The events named after a handler are the handler started and, when it stops, resumed
  before anything else happens (\<open>finishWorkout\<close> can stop twice).
\<close>

lemma resume_last:
  "dispatch (Resume (length (suspended v)) e now) (suspend h v, s) = resume h e now (v, s)"
  by (simp add: suspend_def del: resume.simps)

lemma answered_at_once_suspend [simp]:
  "suspended w = suspended v \<Longrightarrow> answered_at_once v e now (suspend h w, s) = resume h e now (w, s)"
  using resume_last [of w e now h s]
  by (simp add: answered_at_once_def del: dispatch.simps resume.simps)

lemma answered_at_once_same [simp]:
  "suspended w = suspended v \<Longrightarrow> answered_at_once v e now (w, s) = (w, s)"
  by (simp add: answered_at_once_def)

lemma after_flush_suspended [simp]: "suspended (after_flush todo v) = suspended v"
  by (simp add: after_flush_def split: follow_up.splits option.splits)

lemma flush_then_at_once:
  assumes "\<forall>workoutId. todo \<noteq> Then_finish workoutId"
  shows "answered_at_once v e now (flush_then todo es (v, s))
       = (rerender (fst (saveAllSets es (v, s))) (after_flush todo (fst (saveAllSets es (v, s)))), s)"
proof (cases "fst (send_sets es (v, s)) = []")
  case True
  then show ?thesis
    by (simp add: flush_then_def case_prod_beta saveAllSets_halves settle_sets_def)
next
  case False
  with assms show ?thesis
    by (cases todo)
       (simp_all add: flush_then_def case_prod_beta saveAllSets_halves rerender_def)
qed

lemma handler_events:
  "dispatch (Start_workout e now) (v, s)
     = answered_at_once v e' now' (dispatch (Invoke (Start e now)) (v, s))"
  "dispatch (Next_exercise es) (v, s)
     = answered_at_once v e' now' (dispatch (Invoke (Next es)) (v, s))"
  "dispatch (Previous_exercise es) (v, s)
     = answered_at_once v e' now' (dispatch (Invoke (Previous es)) (v, s))"
  "dispatch (Select_exercise es i) (v, s)
     = answered_at_once v e' now' (dispatch (Invoke (Select es i)) (v, s))"
  "dispatch (Blur_set_input e k) (v, s)
     = answered_at_once v e' now' (dispatch (Invoke (Blur e k)) (v, s))"
  "dispatch (Save_sets es) (v, s)
     = answered_at_once v e' now' (dispatch (Invoke (Save es)) (v, s))"
  "dispatch (Delete_set e x) (v, s)
     = answered_at_once v e' now' (dispatch (Invoke (Delete e x)) (v, s))"
proof -
  show "dispatch (Start_workout e now) (v, s)
     = answered_at_once v e' now' (dispatch (Invoke (Start e now)) (v, s))"
    by (simp add: startWorkout_def case_prod_beta
        split: option.splits sum.splits json_body.splits prod.splits)
  show "dispatch (Next_exercise es) (v, s)
     = answered_at_once v e' now' (dispatch (Invoke (Next es)) (v, s))"
    by (simp add: flush_then_at_once goToNextExercise_def case_prod_beta after_flush_def
        rerender_def split: option.splits)
  show "dispatch (Previous_exercise es) (v, s)
     = answered_at_once v e' now' (dispatch (Invoke (Previous es)) (v, s))"
    by (simp add: flush_then_at_once goToPreviousExercise_def case_prod_beta after_flush_def)
  show "dispatch (Select_exercise es i) (v, s)
     = answered_at_once v e' now' (dispatch (Invoke (Select es i)) (v, s))"
    by (simp add: flush_then_at_once selectExercise_def case_prod_beta after_flush_def)
  show "dispatch (Blur_set_input e k) (v, s)
     = answered_at_once v e' now' (dispatch (Invoke (Blur e k)) (v, s))"
    by (simp add: saveSetOnBlur_def case_prod_beta split: option.splits sum.splits)
  show "dispatch (Save_sets es) (v, s)
     = answered_at_once v e' now' (dispatch (Invoke (Save es)) (v, s))"
    by (simp add: flush_then_at_once after_flush_def rerender_def prod_eq_iff)
  show "dispatch (Delete_set e x) (v, s)
     = answered_at_once v e' now' (dispatch (Invoke (Delete e x)) (v, s))"
    by (simp add: deleteSet_def case_prod_beta split: sum.splits)
qed

lemma finish_events:
  "dispatch (Finish_workout es e now) (v, s)
     = answered_at_once v e' now'
         (answered_at_once v e now (dispatch (Invoke (Finish es e now)) (v, s)))"
proof (cases "activeWorkout v")
  case None
  then show ?thesis by (simp add: finishWorkout_def)
next
  case (Some aw)
  show ?thesis
  proof (cases "fst (send_sets es (v, s)) = []")
    case True
    with Some show ?thesis
      by (simp add: finishWorkout_def case_prod_beta saveAllSets_halves settle_sets_def
          send_finish_def split: sum.splits)
  next
    case False
    with Some show ?thesis
      by (simp add: finishWorkout_def case_prod_beta saveAllSets_halves send_finish_def
          split: sum.splits)
  qed
qed

section \<open>The client: a slot saved on blur and flushed again\<close>

lemma blur_example:
  "saveSetOnBlur (env_ok ''s-2'') 0 (example_view, example_server)
     = (example_view\<lparr>console := [''Error saving set:'']\<rparr>, example_server)"
proof -
  have "sessionId example_view = Some ''tok-alice''"
    "activeWorkout example_view = Some example_workout"
    "currentExercise example_view = Some bench"
    "at_index (setInputs example_view) (int 0) = Some \<lparr>weight = 135, reps = 5, rpe = 5\<rparr>"
    by (simp_all add: example_view_def at_index_def)
  then show ?thesis
    by (simp add: saveSetOnBlur_def request_def session_header_def example_workout_def
        bench_def set_of_example_refused log_error_def del: handle.simps)
       (simp add: env_ok_def example_view_def)
qed

lemma invoke_blur_example:
  "dispatch (Invoke (Blur (env_ok ''s-2'') 0)) (example_view, example_server)
     = (example_view
          \<lparr>suspended := [Awaiting_set ''Bench'' 0 (Inl (Request_failed ''Invalid set data''))]\<rparr>,
        example_server)"
proof -
  have "sessionId example_view = Some ''tok-alice''"
    "activeWorkout example_view = Some example_workout"
    "currentExercise example_view = Some bench"
    "at_index (setInputs example_view) (int 0) = Some \<lparr>weight = 135, reps = 5, rpe = 5\<rparr>"
    by (simp_all add: example_view_def at_index_def)
  then show ?thesis
    by (simp add: request_def session_header_def example_workout_def
        bench_def set_of_example_refused suspend_def del: handle.simps)
       (simp add: env_ok_def example_view_def)
qed

lemma send_sets_console [simp]: "send_sets es (v\<lparr>console := c\<rparr>, s) = send_sets es (v, s)"
  by (simp add: send_sets_def split: option.splits)

lemma next_after_blur_example:
  "goToNextExercise envs_ok (example_view\<lparr>console := [''Error saving set:'']\<rparr>, example_server)
     = (example_view\<lparr>console := [''Error saving set:'', ''Error saving sets:''],
                     currentExerciseIndex := 1, currentExercise := Some dips,
                     setInputs := [\<lparr>weight = 0, reps = 0, rpe = 5\<rparr>]\<rparr>,
        example_server)"
proof -
  have same: "send_sets envs_ok (example_view\<lparr>console := [''Error saving set:'']\<rparr>, example_server)
          = send_sets envs_ok (example_view, example_server)"
    by simp
  have "saveAllSets envs_ok (example_view\<lparr>console := [''Error saving set:'']\<rparr>, example_server)
     = (example_view\<lparr>console := [''Error saving set:'', ''Error saving sets:'']\<rparr>, example_server)"
    by (simp add: saveAllSets_halves same send_sets_example settle_sets_def log_error_def)
  then show ?thesis
    by (simp add: goToNextExercise_def)
       (simp add: example_view_def example_workout_def rerender_def init_inputs_def at_index_def
          dips_def)
qed

text \<open>
  C10. A slot saved on blur, then flushed. The first user of the example leaves the field
  of the first slot of \<open>Bench\<close> (135 x 5) and then goes to the next exercise. The blur
  sends a body for the workout \<open>w-1\<close>, the exercise \<open>Bench\<close> and set number 1, and the
  flush sends the same body again: two calls for one set. Each carries the weight as a
  JSON number and is answered 400 \<open>Invalid set data\<close>; one error is logged for each. No
  row is added to \<open>workout_sets\<close>, and the list of recorded sets stays empty.
\<close>

theorem blur_then_leave_sends_twice_stores_nothing:
  "dispatch (Invoke (Blur (env_ok ''s-2'') 0)) (example_view, example_server)
     = (example_view
          \<lparr>suspended := [Awaiting_set ''Bench'' 0 (Inl (Request_failed ''Invalid set data''))]\<rparr>,
        example_server)
   \<and> request (env_ok ''s-2'') (Some ''tok-alice'')
        (POST_workout_sets \<lparr>is_workout_id = ''w-1'', is_exercise_name = ''Bench'',
                            is_weight = Number 135, is_reps = 5, is_rpe = 5, is_set_number = 1\<rparr>)
        example_server
     = (Inl (Request_failed ''Invalid set data''), example_server)
   \<and> setsToSave example_workout bench (setInputs example_view)
     = [\<lparr>is_workout_id = ''w-1'', is_exercise_name = ''Bench'', is_weight = Number 135,
         is_reps = 5, is_rpe = 5, is_set_number = 1\<rparr>]
   \<and> send_sets envs_ok (example_view\<lparr>console := [''Error saving set:'']\<rparr>, example_server)
     = ([Inl (Request_failed ''Invalid set data'')], example_server)
   \<and> run [Blur_set_input (env_ok ''s-2'') 0, Next_exercise envs_ok] (example_view, example_server)
     = (example_view\<lparr>console := [''Error saving set:'', ''Error saving sets:''],
                     currentExerciseIndex := 1, currentExercise := Some dips,
                     setInputs := [\<lparr>weight = 0, reps = 0, rpe = 5\<rparr>]\<rparr>,
        example_server)
   \<and> workout_sets (db example_server)
     = [\<lparr>s_id = ''s-1'', s_workout_id = ''w-1'', s_exercise_name = ''Bench'',
         s_weight = 135, s_reps = 5, s_rpe = 7, s_set_number = 1\<rparr>]
   \<and> workoutSets
        (fst (run [Blur_set_input (env_ok ''s-2'') 0, Next_exercise envs_ok]
                (example_view, example_server))) = []"
proof -
  have call: "request (env_ok ''s-2'') (Some ''tok-alice'')
        (POST_workout_sets \<lparr>is_workout_id = ''w-1'', is_exercise_name = ''Bench'',
                            is_weight = Number 135, is_reps = 5, is_rpe = 5, is_set_number = 1\<rparr>)
        example_server
     = (Inl (Request_failed ''Invalid set data''), example_server)"
    by (simp add: request_def session_header_def set_of_example_refused del: handle.simps)
       (simp add: env_ok_def)
  have again: "send_sets envs_ok (example_view\<lparr>console := [''Error saving set:'']\<rparr>, example_server)
     = ([Inl (Request_failed ''Invalid set data'')], example_server)"
    by (simp add: send_sets_example)
  have both: "run [Blur_set_input (env_ok ''s-2'') 0, Next_exercise envs_ok]
                (example_view, example_server)
     = (example_view\<lparr>console := [''Error saving set:'', ''Error saving sets:''],
                     currentExerciseIndex := 1, currentExercise := Some dips,
                     setInputs := [\<lparr>weight = 0, reps = 0, rpe = 5\<rparr>]\<rparr>,
        example_server)"
    by (simp add: blur_example next_after_blur_example) (simp add: example_view_def)
  show ?thesis
    by (simp only: invoke_blur_example call sets_of_example again both fst_conv)
       (simp add: example_view_def example_server_def example_db_def)
qed

section \<open>Finishing a workout\<close>

lemma still_ended_iff:
  "still_ended d d' \<longleftrightarrow>
     length (workouts d) \<le> length (workouts d')
     \<and> (\<forall>i < length (workouts d).
           w_end_time (workouts d ! i) \<noteq> None \<longrightarrow> w_end_time (workouts d' ! i) \<noteq> None)"
proof (cases "length (workouts d) \<le> length (workouts d')")
  case True
  then have "min (length (workouts d)) (length (workouts d')) = length (workouts d)"
    by simp
  with True show ?thesis
    by (auto simp: still_ended_def list_all_length)
next
  case False
  then show ?thesis by (simp add: still_ended_def)
qed

lemma still_ended_refl [simp]: "still_ended d d"
  by (simp add: still_ended_iff)

lemma still_ended_trans:
  "still_ended d1 d2 \<Longrightarrow> still_ended d2 d3 \<Longrightarrow> still_ended d1 d3"
  by (fastforce simp: still_ended_iff)

lemma still_ended_same: "workouts d' = workouts d \<Longrightarrow> still_ended d d'"
  by (simp add: still_ended_iff)

lemma still_ended_append: "workouts d' = workouts d @ ws \<Longrightarrow> still_ended d d'"
  by (simp add: still_ended_iff nth_append)

lemma still_ended_map:
  assumes "workouts d' = map f (workouts d)"
    and "\<And>w. w_end_time w \<noteq> None \<Longrightarrow> w_end_time (f w) \<noteq> None"
  shows "still_ended d d'"
  using assms by (simp add: still_ended_iff)

lemma still_ended_updateWorkout:
  assumes "p_end_time updates \<noteq> Null"
    and "updateWorkout workoutId userId updates d = Inr (result, d')"
  shows "still_ended d d'"
proof (cases "no_values_to_set updates \<or> filter (\<lambda>w. w_id w = workoutId \<and> w_user_id w = userId) (workouts d) = []")
  case True
  with assms(2) have "d' = d"
    by (auto simp: updateWorkout_def split: if_splits)
  then show ?thesis by simp
next
  case False
  with assms(2) have "workouts d'
      = map (\<lambda>w. if w_id w = workoutId \<and> w_user_id w = userId then set_columns updates w else w)
          (workouts d)"
    by (auto simp: updateWorkout_def split: if_splits list.splits)
  moreover have "w_end_time (set_columns updates w) \<noteq> None" if "w_end_time w \<noteq> None" for w
    using that assms(1) by (cases "p_end_time updates") (simp_all add: set_columns_def set_nullable_def)
  ultimately show ?thesis
    by (intro still_ended_map
          [where f = "\<lambda>w. if w_id w = workoutId \<and> w_user_id w = userId
                         then set_columns updates w else w"]) auto
qed

lemma still_ended_deleteRoutine: "still_ended d (deleteRoutine routineId userId d)"
proof (rule still_ended_map)
  let ?gone = "set (map r_id (filter (\<lambda>r. r_id r = routineId \<and> r_user_id r = userId) (routines d)))"
  let ?f = "\<lambda>w. case w_routine_id w of
                   None \<Rightarrow> w
                 | Some r \<Rightarrow> if r \<in> ?gone then w\<lparr>w_routine_id := None\<rparr> else w"
  show "workouts (deleteRoutine routineId userId d) = map ?f (workouts d)"
    by (simp add: deleteRoutine_def Let_def cong: option.case_cong if_cong)
  fix w
  show "w_end_time (?f w) \<noteq> None" if "w_end_time w \<noteq> None"
    using that by (simp split: option.splits)
qed

lemma workouts_signup: "workouts (db (snd (signup e b s))) = workouts (db s)"
  by (auto simp: signup_def open_session_def createUser_def Let_def
      split: option.splits sum.splits if_splits)

lemma workouts_signin: "workouts (db (snd (signin e n p s))) = workouts (db s)"
  by (simp add: signin_def open_session_def Let_def split: option.splits)

lemma workouts_signout: "workouts (db (snd (signout h s))) = workouts (db s)"
  by (simp add: signout_def split: option.splits)

lemma handle_keeps_ended:
  assumes "\<forall>x body. rq = PATCH_workouts x body \<longrightarrow> p_end_time body \<noteq> Null"
  shows "still_ended (db s) (db (snd (handle e h rq s)))"
proof (cases "authenticated rq \<and> isl (authenticateUser (sessions s) h)")
  case True
  then obtain r where "authenticateUser (sessions s) h = Inl r"
    by (auto simp: isl_def)
  with True show ?thesis
    by (simp add: handle_refused)
next
  case False
  show ?thesis
  proof (cases rq)
    case (POST_auth_signup b)
    then show ?thesis by (simp add: still_ended_same workouts_signup)
  next
    case (POST_auth_signin n p)
    then show ?thesis by (simp add: still_ended_same workouts_signin)
  next
    case POST_auth_signout
    then show ?thesis by (simp add: still_ended_same workouts_signout)
  next
    case (POST_routines name)
    then show ?thesis
      by (auto simp: behind_auth_def createRoutine_def Let_def intro!: still_ended_same
          split: sum.splits if_splits)
  next
    case (DELETE_routines x)
    then show ?thesis
      by (auto simp: behind_auth_def still_ended_deleteRoutine split: sum.splits)
  next
    case (POST_routine_exercises b)
    then show ?thesis
      by (auto simp: behind_auth_def createRoutineExercise_def Let_def intro!: still_ended_same
          split: sum.splits if_splits)
  next
    case (DELETE_routine_exercises x)
    then show ?thesis
      by (auto simp: behind_auth_def deleteRoutineExercise_def intro!: still_ended_same
          split: sum.splits)
  next
    case (POST_workouts b)
    then show ?thesis
      by (auto simp: behind_auth_def intro!: still_ended_append
          split: sum.splits dest!: createWorkout_Inr)
  next
    case (PATCH_workouts x updates)
    with assms have "p_end_time updates \<noteq> Null" by simp
    note upd = still_ended_updateWorkout [OF this]
    from PATCH_workouts show ?thesis
      by (auto simp: behind_auth_def split: sum.splits option.splits dest: upd)
  next
    case (POST_workout_sets b)
    then show ?thesis
      by (auto simp: behind_auth_def createWorkoutSet_def Let_def intro!: still_ended_same
          split: sum.splits option.splits if_splits)
  next
    case (DELETE_workout_sets x)
    then show ?thesis
      by (auto simp: behind_auth_def deleteWorkoutSet_def intro!: still_ended_same
          split: sum.splits)
  qed (auto simp: behind_auth_def split: sum.splits)
qed

lemma request_keeps_ended:
  assumes "\<forall>x body. rq = PATCH_workouts x body \<longrightarrow> p_end_time body \<noteq> Null"
  shows "still_ended (db s) (db (snd (request e sid rq s)))"
  using handle_keeps_ended [OF assms, of s e "session_header sid"]
  by (auto simp: request_def split: prod.splits)

lemma dispatch_server:
  "snd (dispatch ev (v, s)) = s
   \<or> (\<exists>e sid rq. (\<forall>x body. rq = PATCH_workouts x body \<longrightarrow> p_end_time body \<noteq> Null)
         \<and> snd (dispatch ev (v, s)) = snd (request e sid rq s))"
proof -
  have finish: "\<forall>x body. PATCH_workouts wid (end_time_only now) = PATCH_workouts x body
                  \<longrightarrow> p_end_time body \<noteq> Null" for wid now
    by (auto simp: end_time_only_def)
  have call: ?thesis
    if "snd (dispatch ev (v, s)) = snd (request e sid rq s)"
      "\<forall>x body. rq = PATCH_workouts x body \<longrightarrow> p_end_time body \<noteq> Null" for e sid rq
    using that by blast
  show ?thesis
  proof (cases ev)
    case (Start_workout e now)
    show ?thesis
    proof (cases "user v = None \<or> selectedRoutineId v = []
        \<or> find (\<lambda>r. rt_id r = selectedRoutineId v) (routines_state v) = None")
      case True
      with Start_workout show ?thesis
        by (auto simp: startWorkout_def)
    next
      case False
      then obtain rt where "find (\<lambda>r. rt_id r = selectedRoutineId v) (routines_state v) = Some rt"
        by auto
      with False Start_workout show ?thesis
        by (intro call [where e = e and sid = "sessionId v"
              and rq = "POST_workouts \<lparr>iw_routine_id = Some (selectedRoutineId v),
                              iw_routine_name = rt_name rt, iw_start_time = now,
                              iw_end_time = None\<rparr>"])
           (auto simp: startWorkout_def case_prod_beta split: sum.splits json_body.splits)
    qed
  next
    case (Next_exercise es)
    then show ?thesis
      by (simp add: goToNextExercise_def case_prod_beta split: option.splits)
  next
    case (Previous_exercise es)
    then show ?thesis
      by (simp add: goToPreviousExercise_def case_prod_beta)
  next
    case (Select_exercise es i)
    then show ?thesis
      by (simp add: selectExercise_def case_prod_beta)
  next
    case (Blur_set_input e k)
    show ?thesis
    proof (cases "snd (saveSetOnBlur e k (v, s)) = s")
      case True
      with Blur_set_input show ?thesis by simp
    next
      case False
      then have "\<exists>b. snd (saveSetOnBlur e k (v, s))
          = snd (request e (sessionId v) (POST_workout_sets b) s)"
        by (auto simp: saveSetOnBlur_def case_prod_beta split: option.splits if_splits sum.splits)
      then obtain b where "snd (saveSetOnBlur e k (v, s))
          = snd (request e (sessionId v) (POST_workout_sets b) s)" ..
      with Blur_set_input show ?thesis
        by (intro call [where e = e and sid = "sessionId v" and rq = "POST_workout_sets b"])
           simp_all
    qed
  next
    case (Delete_set e x)
    then show ?thesis
      by (intro call [where e = e and sid = "sessionId v" and rq = "DELETE_workout_sets x"])
         (auto simp: deleteSet_def case_prod_beta split: sum.splits)
  next
    case (Finish_workout es e now)
    show ?thesis
    proof (cases "activeWorkout v")
      case None
      with Finish_workout show ?thesis
        by (simp add: finishWorkout_def)
    next
      case (Some aw)
      with Finish_workout show ?thesis
        by (intro call [where e = e and sid = "sessionId v"
              and rq = "PATCH_workouts (aw_id aw) (end_time_only now)"] finish)
           (auto simp: finishWorkout_def case_prod_beta split: sum.splits)
    qed
  next
    case (Invoke h)
    show ?thesis
    proof (cases h)
      case (Start e now)
      show ?thesis
      proof (cases "user v = None \<or> selectedRoutineId v = []
          \<or> find (\<lambda>r. rt_id r = selectedRoutineId v) (routines_state v) = None")
        case True
        with Start Invoke show ?thesis by auto
      next
        case False
        then obtain rt where "find (\<lambda>r. rt_id r = selectedRoutineId v) (routines_state v) = Some rt"
          by auto
        with False Start Invoke show ?thesis
          by (intro call [where e = e and sid = "sessionId v"
                and rq = "POST_workouts \<lparr>iw_routine_id = Some (selectedRoutineId v),
                                iw_routine_name = rt_name rt, iw_start_time = now,
                                iw_end_time = None\<rparr>"])
             (auto simp: case_prod_beta)
      qed
    next
      case (Blur e k)
      show ?thesis
      proof (cases "snd (invoke (Blur e k) (v, s)) = s")
        case True
        with Blur Invoke show ?thesis by simp
      next
        case False
        then have "\<exists>b. snd (invoke (Blur e k) (v, s))
            = snd (request e (sessionId v) (POST_workout_sets b) s)"
          by (auto simp: case_prod_beta split: option.splits if_splits)
        then obtain b where "snd (invoke (Blur e k) (v, s))
            = snd (request e (sessionId v) (POST_workout_sets b) s)" ..
        with Blur Invoke show ?thesis
          by (intro call [where e = e and sid = "sessionId v" and rq = "POST_workout_sets b"])
             simp_all
      qed
    next
      case (Delete e x)
      with Invoke show ?thesis
        by (intro call [where e = e and sid = "sessionId v" and rq = "DELETE_workout_sets x"])
           (auto simp: case_prod_beta)
    next
      case (Finish es e now)
      show ?thesis
      proof (cases "activeWorkout v")
        case None
        with Finish Invoke show ?thesis by simp
      next
        case (Some aw)
        show ?thesis
        proof (cases "fst (send_sets es (v, s)) = []")
          case True
          with Some Finish Invoke show ?thesis
            by (intro call [where e = e and sid = "sessionId v"
                  and rq = "PATCH_workouts (aw_id aw) (end_time_only now)"] finish)
               (auto simp: case_prod_beta send_finish_def)
        next
          case False
          with Some Finish Invoke show ?thesis
            by (simp add: case_prod_beta)
        qed
      qed
    qed (use Invoke in \<open>simp_all add: flush_then_def case_prod_beta\<close>)
  next
    case (Resume k e now)
    show ?thesis
    proof (cases "k < length (suspended v)")
      case False
      with Resume show ?thesis by simp
    next
      case True
      let ?v = "v\<lparr>suspended := take k (suspended v) @ drop (Suc k) (suspended v)\<rparr>"
      from True Resume have eq: "dispatch ev (v, s) = resume (suspended v ! k) e now (?v, s)"
        by simp
      show ?thesis
      proof (cases "suspended v ! k")
        case (Awaiting_workout rt result)
        then show ?thesis
          unfolding eq by (simp split: sum.splits json_body.splits)
      next
        case (Awaiting_sets todo results)
        show ?thesis
        proof (cases todo)
          case (Then_finish wid)
          with Awaiting_sets show ?thesis
            by (intro call [where e = e and sid = "sessionId v"
                  and rq = "PATCH_workouts wid (end_time_only now)"] finish)
               (simp add: eq send_finish_def case_prod_beta)
        qed (use Awaiting_sets in \<open>simp_all add: eq\<close>)
      next
        case (Awaiting_set name n result)
        then show ?thesis
          unfolding eq by (simp split: sum.splits)
      next
        case (Awaiting_delete x result)
        then show ?thesis
          unfolding eq by (simp split: sum.splits)
      next
        case (Awaiting_update result)
        then show ?thesis
          unfolding eq by (simp split: sum.splits)
      qed
    qed
  qed simp_all
qed

lemma dispatch_keeps_ended: "still_ended (db s) (db (snd (dispatch ev (v, s))))"
  using dispatch_server [of ev v s] request_keeps_ended [of _ s]
  by (auto simp del: dispatch.simps)

lemma run_keeps_ended: "still_ended (db (snd vs)) (db (snd (run evs vs)))"
proof (induction evs arbitrary: vs)
  case Nil
  then show ?case by simp
next
  case (Cons ev evs)
  obtain v s where vs: "vs = (v, s)" by (cases vs)
  from dispatch_keeps_ended [of s ev v] Cons [of "dispatch ev (v, s)"]
  have "still_ended (db s) (db (snd (run evs (dispatch ev (v, s)))))"
    by (rule still_ended_trans)
  then show ?case
    by (simp add: vs del: dispatch.simps)
qed

lemma set_columns_end_time_only [simp]:
  "set_columns (end_time_only t) w = w\<lparr>w_end_time := Some t\<rparr>"
  by (simp add: set_columns_def end_time_only_def set_column_def set_nullable_def)

lemma updateWorkout_end_time_only:
  "updateWorkout wid userId (end_time_only t) d
     = (case filter (\<lambda>w. w_id w = wid \<and> w_user_id w = userId) (workouts d) of
          [] \<Rightarrow> Inr (None, d)
        | w # rest \<Rightarrow>
            Inr (Some (w\<lparr>w_end_time := Some t\<rparr>),
                 d\<lparr>workouts := map (\<lambda>w. if w_id w = wid \<and> w_user_id w = userId
                                          then w\<lparr>w_end_time := Some t\<rparr> else w)
                                   (workouts d)\<rparr>))"
proof -
  have "\<not> no_values_to_set (end_time_only t)"
    "\<not> breaks_constraint wid (end_time_only t) d"
    by (simp_all add: no_values_to_set_def breaks_constraint_def end_time_only_def)
  then show ?thesis
    by (simp add: updateWorkout_def Let_def split: list.splits)
qed

lemma request_patch:
  assumes "request e sid (PATCH_workouts wid (end_time_only t)) s = (Inr body, s')"
  shows "\<exists>u. authenticateUser (sessions s) (session_header sid) = Inr u
           \<and> (\<exists>w \<in> set (workouts (db s)). w_id w = wid \<and> w_user_id w = su_id u)
           \<and> s' = s\<lparr>db := (db s)\<lparr>workouts :=
                     map (\<lambda>w. if w_id w = wid \<and> w_user_id w = su_id u
                               then w\<lparr>w_end_time := Some t\<rparr> else w) (workouts (db s))\<rparr>\<rparr>"
proof (cases "authenticateUser (sessions s) (session_header sid)")
  case (Inl r)
  then have "r = (401, Err ''Not authenticated'')"
    by (simp add: authenticateUser_Inl)
  with assms Inl show ?thesis
    by (auto simp: request_def behind_auth_def split: if_splits)
next
  case (Inr u)
  let ?hit = "\<lambda>w. w_id w = wid \<and> w_user_id w = su_id u"
  show ?thesis
  proof (cases "filter ?hit (workouts (db s))")
    case Nil
    with assms Inr show ?thesis
      by (auto simp: request_def behind_auth_def updateWorkout_end_time_only split: if_splits)
  next
    case (Cons w rest)
    then have "w \<in> set (filter ?hit (workouts (db s)))" by simp
    then have "\<exists>w \<in> set (workouts (db s)). ?hit w" by auto
    with assms Inr Cons show ?thesis
      by (intro exI [of _ u])
         (auto simp: request_def behind_auth_def updateWorkout_end_time_only split: if_splits)
  qed
qed

lemma finishWorkout_done:
  assumes "activeWorkout v = Some aw"
    and "activeWorkout (fst (finishWorkout es e now (v, s))) = None"
  shows "\<exists>body. request e (sessionId v) (PATCH_workouts (aw_id aw) (end_time_only now)) s
               = (Inr body, snd (finishWorkout es e now (v, s)))"
proof (cases "fst (request e (sessionId v) (PATCH_workouts (aw_id aw) (end_time_only now)) s)")
  case (Inl err)
  with assms show ?thesis
    by (simp add: finishWorkout_def case_prod_beta)
next
  case (Inr body)
  with assms(1) have "snd (finishWorkout es e now (v, s))
      = snd (request e (sessionId v) (PATCH_workouts (aw_id aw) (end_time_only now)) s)"
    by (simp add: finishWorkout_def case_prod_beta)
  with Inr show ?thesis
    by (intro exI [of _ body]) (simp add: prod_eq_iff)
qed

lemma serve_keeps_ended:
  assumes "\<forall>(e, h, rq) \<in> set trace.
             \<forall>x body. rq = PATCH_workouts x body \<longrightarrow> p_end_time body \<noteq> Null"
  shows "still_ended (db s) (db (serve trace s))"
  using assms
proof (induction trace arbitrary: s)
  case Nil
  then show ?case by simp
next
  case (Cons a trace)
  obtain e h rq where a: "a = (e, h, rq)" by (cases a)
  from Cons.prems a have "\<forall>x body. rq = PATCH_workouts x body \<longrightarrow> p_end_time body \<noteq> Null"
    by simp
  from handle_keeps_ended [OF this, of s e h] Cons.IH [of "snd (handle e h rq s)"] Cons.prems
  have "still_ended (db s) (db (serve trace (snd (handle e h rq s))))"
    by (auto intro: still_ended_trans)
  then show ?case
    by (simp add: a del: handle.simps)
qed

text \<open>
  C3. Finishing. With the primary key of \<open>workouts\<close> in force, when \<open>finishWorkout\<close> has
  gone through (the view holds no workout any more): the table of workouts has a row for
  this workout, and is the table before with \<open>end_time\<close> set to the clock reading in that
  row and nothing else changed, \<open>start_time\<close> included; so \<open>start_time \<le> end_time\<close> there
  when the clock has not gone back behind the stored \<open>start_time\<close>. Every workout that is
  finished then, this one among them, is still finished after every sequence of events of
  the component, handlers waiting for one another included, followed by every sequence of
  requests to the server in which no PATCH carries \<open>end_time: null\<close>.
\<close>

theorem finishing_a_workout:
  assumes "distinct (map w_id (workouts (db s)))"
    and "activeWorkout v = Some aw"
    and "activeWorkout (fst (finishWorkout es e now (v, s))) = None"
  shows "(\<exists>w \<in> set (workouts (db s)). w_id w = aw_id aw)
       \<and> workouts (db (snd (finishWorkout es e now (v, s))))
           = map (\<lambda>w. if w_id w = aw_id aw then w\<lparr>w_end_time := Some now\<rparr> else w)
               (workouts (db s))
       \<and> (\<forall>w \<in> set (workouts (db (snd (finishWorkout es e now (v, s))))).
             w_id w = aw_id aw \<longrightarrow> w_end_time w = Some now)
       \<and> ((\<forall>w \<in> set (workouts (db s)). w_id w = aw_id aw \<longrightarrow> w_start_time w \<le> now) \<longrightarrow>
            (\<forall>w \<in> set (workouts (db (snd (finishWorkout es e now (v, s))))).
               w_id w = aw_id aw \<longrightarrow> (\<exists>t. w_end_time w = Some t \<and> w_start_time w \<le> t)))
       \<and> ((\<forall>(e', h', rq') \<in> set trace.
               \<forall>x body. rq' = PATCH_workouts x body \<longrightarrow> p_end_time body \<noteq> Null) \<longrightarrow>
            still_ended (db (snd (finishWorkout es e now (v, s))))
              (db (serve trace (snd (run evs (finishWorkout es e now (v, s)))))))"
proof -
  let ?s' = "snd (finishWorkout es e now (v, s))"
  from finishWorkout_done [OF assms(2,3)] obtain body where
    call: "request e (sessionId v) (PATCH_workouts (aw_id aw) (end_time_only now)) s
             = (Inr body, ?s')"
    by blast
  from request_patch [OF call] obtain u where
    all: "authenticateUser (sessions s) (session_header (sessionId v)) = Inr u
      \<and> (\<exists>w \<in> set (workouts (db s)). w_id w = aw_id aw \<and> w_user_id w = su_id u)
      \<and> ?s' = s\<lparr>db := (db s)\<lparr>workouts :=
                     map (\<lambda>w. if w_id w = aw_id aw \<and> w_user_id w = su_id u
                               then w\<lparr>w_end_time := Some now\<rparr> else w)
                       (workouts (db s))\<rparr>\<rparr>" ..
  from all have
    hit: "\<exists>w \<in> set (workouts (db s)). w_id w = aw_id aw \<and> w_user_id w = su_id u"
    by (rule conjunct2 [THEN conjunct1])
  from all have s': "?s' = s\<lparr>db := (db s)\<lparr>workouts :=
                     map (\<lambda>w. if w_id w = aw_id aw \<and> w_user_id w = su_id u
                               then w\<lparr>w_end_time := Some now\<rparr> else w)
                       (workouts (db s))\<rparr>\<rparr>"
    by (rule conjunct2 [THEN conjunct2])
  from hit obtain w0 where
    w0: "w0 \<in> set (workouts (db s))" "w_id w0 = aw_id aw" "w_user_id w0 = su_id u"
    by auto
  then have there: "\<exists>w \<in> set (workouts (db s)). w_id w = aw_id aw"
    by blast
  have only: "w = w0" if "w \<in> set (workouts (db s))" "w_id w = aw_id aw" for w
    using that w0(1,2) assms(1) by (metis distinct_map inj_onD)
  have rows': "workouts (db ?s')
      = map (\<lambda>w. if w_id w = aw_id aw then w\<lparr>w_end_time := Some now\<rparr> else w) (workouts (db s))"
  proof -
    have "map (\<lambda>w. if w_id w = aw_id aw \<and> w_user_id w = su_id u
                               then w\<lparr>w_end_time := Some now\<rparr> else w) (workouts (db s))
        = map (\<lambda>w. if w_id w = aw_id aw then w\<lparr>w_end_time := Some now\<rparr> else w) (workouts (db s))"
      using only w0(3) by (intro map_cong [OF refl]) auto
    then show ?thesis
      by (subst s') simp
  qed
  have ended: "\<forall>w \<in> set (workouts (db ?s')). w_id w = aw_id aw \<longrightarrow> w_end_time w = Some now"
    by (auto simp: rows')
  have clock: "\<forall>w \<in> set (workouts (db ?s')).
               w_id w = aw_id aw \<longrightarrow> (\<exists>t. w_end_time w = Some t \<and> w_start_time w \<le> t)"
    if "\<forall>w \<in> set (workouts (db s)). w_id w = aw_id aw \<longrightarrow> w_start_time w \<le> now"
    using that by (auto simp: rows')
  have later: "still_ended (db ?s') (db (serve trace (snd (run evs (finishWorkout es e now (v, s))))))"
    if "\<forall>(e', h', rq') \<in> set trace.
               \<forall>x body. rq' = PATCH_workouts x body \<longrightarrow> p_end_time body \<noteq> Null"
    using run_keeps_ended [of "finishWorkout es e now (v, s)" evs]
      serve_keeps_ended [OF that, of "snd (run evs (finishWorkout es e now (v, s)))"]
    by (rule still_ended_trans)
  from there rows' ended clock later show ?thesis by blast
qed

lemma patch_null_example:
  "handle (env_ok ''a'') (Some ''tok-alice'') (PATCH_workouts ''w-1'' end_time_null) example_done
   = ((200, Workout_one \<lparr>w_id = ''w-1'', w_user_id = ''u-alice'', w_routine_id = Some ''r-push'',
                          w_routine_name = ''Push'', w_start_time = 1000, w_end_time = None\<rparr>),
      example_server)"
  by (simp add: behind_auth_def authenticateUser_def updateWorkout_def no_values_to_set_def
      breaks_constraint_def set_columns_def set_column_def set_nullable_def end_time_null_def
      example_done_def example_server_def example_db_def env_ok_def alice_def Let_def)

text \<open>What the route that updates a workout does with other bodies: the empty body is a
  statement with nothing to set, answered 500; a body with an \<open>id\<close> renames the workout,
  when no set refers to it.\<close>

lemma patch_of_nothing_example:
  "handle (env_ok ''a'') (Some ''tok-alice'')
     (PATCH_workouts ''w-1'' (end_time_null\<lparr>p_end_time := Absent\<rparr>)) example_done
   = ((500, Err ''Internal server error''), example_done)"
  by (simp add: behind_auth_def authenticateUser_def updateWorkout_def no_values_to_set_def
      end_time_null_def example_done_def example_server_def env_ok_def)

lemma patch_of_id_example:
  "workouts
     (db (snd (handle (env_ok ''a'') (Some ''tok-alice'')
                 (PATCH_workouts ''w-1'' (end_time_null\<lparr>p_end_time := Absent, p_id := Given ''w-9''\<rparr>))
                 (example_done\<lparr>db := (db example_done)\<lparr>workout_sets := []\<rparr>\<rparr>))))
   = [\<lparr>w_id = ''w-9'', w_user_id = ''u-alice'', w_routine_id = Some ''r-push'',
       w_routine_name = ''Push'', w_start_time = 1000, w_end_time = Some 9000\<rparr>]"
  by (simp add: behind_auth_def authenticateUser_def updateWorkout_def no_values_to_set_def
      breaks_constraint_def set_columns_def set_column_def set_nullable_def end_time_null_def
      example_done_def example_server_def example_db_def env_ok_def alice_def Let_def)

lemma finish_example:
  "finishWorkout envs_ok (env_ok ''p'') now (example_view, example_server)
   = (example_view\<lparr>console := [''Error saving sets:''], activeWorkout := None,
                   currentExercise := None, setInputs := [], selectedRoutineId := []\<rparr>,
      example_server
        \<lparr>db := example_db
           \<lparr>workouts := [\<lparr>w_id = ''w-1'', w_user_id = ''u-alice'',
                           w_routine_id = Some ''r-push'', w_routine_name = ''Push'',
                           w_start_time = 1000, w_end_time = Some now\<rparr>]\<rparr>\<rparr>)"
proof -
  have active: "activeWorkout example_view = Some example_workout"
    by (simp add: example_view_def)
  have flush: "saveAllSets envs_ok (example_view, example_server)
     = (example_view\<lparr>console := [''Error saving sets:'']\<rparr>, example_server)"
    by (simp add: saveAllSets_halves send_sets_example settle_sets_def log_error_def)
       (simp add: example_view_def)
  have call: "request (env_ok ''p'') (Some ''tok-alice'')
       (PATCH_workouts ''w-1'' (end_time_only now)) example_server
     = (Inr (Workout_one \<lparr>w_id = ''w-1'', w_user_id = ''u-alice'', w_routine_id = Some ''r-push'',
                           w_routine_name = ''Push'', w_start_time = 1000,
                           w_end_time = Some now\<rparr>),
        example_server
          \<lparr>db := example_db
             \<lparr>workouts := [\<lparr>w_id = ''w-1'', w_user_id = ''u-alice'',
                             w_routine_id = Some ''r-push'', w_routine_name = ''Push'',
                             w_start_time = 1000, w_end_time = Some now\<rparr>]\<rparr>\<rparr>)"
    by (simp add: request_def behind_auth_def authenticateUser_def session_header_def
        updateWorkout_end_time_only example_server_def example_db_def env_ok_def alice_def)
  show ?thesis
    by (simp add: finishWorkout_def active flush)
       (simp add: example_view_def example_workout_def call rerender_def init_inputs_def)
qed

text \<open>
  C3, as it was stated: that no operation takes a finished workout back to a running one,
  and that the \<open>end_time\<close> of a finished workout is not before its \<open>start_time\<close>. The route
  that updates a workout writes what its body carries, whatever it is: sent by the owner
  with \<open>end_time: null\<close>, it is answered 200 and the finished workout of the example is a
  running one again. And the \<open>end_time\<close> is the clock reading of the client, which the
  server compares with nothing: finished at a reading of 500, the workout started at 1000
  is stored with \<open>end_time\<close> 500.
\<close>

theorem finished_workout_reopened_by_patch:
  "map w_end_time (workouts (db example_done)) = [Some 9000]
   \<and> handle (env_ok ''a'') (Some ''tok-alice'') (PATCH_workouts ''w-1'' end_time_null)
       example_done
     = ((200, Workout_one \<lparr>w_id = ''w-1'', w_user_id = ''u-alice'',
                            w_routine_id = Some ''r-push'', w_routine_name = ''Push'',
                            w_start_time = 1000, w_end_time = None\<rparr>),
        example_server)
   \<and> map w_end_time (workouts (db example_server)) = [None]
   \<and> \<not> still_ended (db example_done)
         (db (snd (handle (env_ok ''a'') (Some ''tok-alice'')
                     (PATCH_workouts ''w-1'' end_time_null) example_done)))
   \<and> activeWorkout (fst (finishWorkout envs_ok (env_ok ''p'') 500 (example_view, example_server)))
     = None
   \<and> workouts (db (snd (finishWorkout envs_ok (env_ok ''p'') 500 (example_view, example_server))))
     = [\<lparr>w_id = ''w-1'', w_user_id = ''u-alice'', w_routine_id = Some ''r-push'',
         w_routine_name = ''Push'', w_start_time = 1000, w_end_time = Some 500\<rparr>]"
  by (simp only: patch_null_example finish_example snd_conv fst_conv)
     (simp add: still_ended_def example_done_def example_server_def example_db_def)


theorem finishing_a_workout_witness:
  "distinct (map w_id (workouts (db example_server)))
   \<and> activeWorkout example_view = Some example_workout
   \<and> activeWorkout (fst (finishWorkout envs_ok (env_ok ''p'') 9000 (example_view, example_server)))
       = None
   \<and> map w_start_time (workouts (db example_server)) = [1000]
   \<and> workouts (db (snd (finishWorkout envs_ok (env_ok ''p'') 9000 (example_view, example_server))))
       = [\<lparr>w_id = ''w-1'', w_user_id = ''u-alice'', w_routine_id = Some ''r-push'',
           w_routine_name = ''Push'', w_start_time = 1000, w_end_time = Some 9000\<rparr>]
   \<and> (\<exists>t. w_end_time
               (workouts (db (snd (finishWorkout envs_ok (env_ok ''p'') 9000
                                     (example_view, example_server)))) ! 0) = Some t
           \<and> w_start_time
               (workouts (db (snd (finishWorkout envs_ok (env_ok ''p'') 9000
                                     (example_view, example_server)))) ! 0) \<le> t)
   \<and> workout_sets (db (snd (finishWorkout envs_ok (env_ok ''p'') 9000
                               (example_view, example_server))))
       = [\<lparr>s_id = ''s-1'', s_workout_id = ''w-1'', s_exercise_name = ''Bench'',
           s_weight = 135, s_reps = 5, s_rpe = 7, s_set_number = 1\<rparr>]
   \<and> still_ended
        (db (snd (finishWorkout envs_ok (env_ok ''p'') 9000 (example_view, example_server))))
        (db (serve [(env_ok ''q'', Some ''tok-alice'',
                     PATCH_workouts ''w-1'' (end_time_only 9900))]
               (snd (run [Select_routine ''r-push'', Invoke (Start (env_ok ''w-2'') 9500),
                          Resume 0 (env_ok ''r'') 0, Next_exercise envs_ok]
                       (finishWorkout envs_ok (env_ok ''p'') 9000
                          (example_view, example_server))))))
   \<and> w_end_time
        (workouts
           (db (serve [(env_ok ''q'', Some ''tok-alice'',
                        PATCH_workouts ''w-1'' (end_time_only 9900))]
                  (snd (run [Select_routine ''r-push'', Invoke (Start (env_ok ''w-2'') 9500),
                             Resume 0 (env_ok ''r'') 0, Next_exercise envs_ok]
                          (finishWorkout envs_ok (env_ok ''p'') 9000
                             (example_view, example_server)))))) ! 0) \<noteq> None"
proof -
  have pk: "distinct (map w_id (workouts (db example_server)))"
    by (simp add: example_server_def example_db_def)
  have active: "activeWorkout example_view = Some example_workout"
    by (simp add: example_view_def)
  have gone: "activeWorkout (fst (finishWorkout envs_ok (env_ok ''p'') 9000
                                    (example_view, example_server))) = None"
    by (simp only: finish_example fst_conv) simp
  have other: "\<forall>(e', h', rq') \<in> set [(env_ok ''q'', Some ''tok-alice'',
                     PATCH_workouts ''w-1'' (end_time_only 9900))].
         \<forall>x body. rq' = PATCH_workouts x body \<longrightarrow> p_end_time body \<noteq> Null"
    by (auto simp: end_time_only_def)
  have id: "aw_id example_workout = ''w-1''"
    by (simp add: example_workout_def)
  note inst = finishing_a_workout [OF pk active gone,
      where evs = "[Select_routine ''r-push'', Invoke (Start (env_ok ''w-2'') 9500),
                    Resume 0 (env_ok ''r'') 0, Next_exercise envs_ok]"
        and trace = "[(env_ok ''q'', Some ''tok-alice'',
                       PATCH_workouts ''w-1'' (end_time_only 9900))]"]
  from inst have "workouts (db (snd (finishWorkout envs_ok (env_ok ''p'') 9000
                                       (example_view, example_server))))
      = map (\<lambda>w. if w_id w = aw_id example_workout then w\<lparr>w_end_time := Some 9000\<rparr> else w)
          (workouts (db example_server))"
    by blast
  then have rows: "workouts (db (snd (finishWorkout envs_ok (env_ok ''p'') 9000
                                       (example_view, example_server))))
       = [\<lparr>w_id = ''w-1'', w_user_id = ''u-alice'', w_routine_id = Some ''r-push'',
           w_routine_name = ''Push'', w_start_time = 1000, w_end_time = Some 9000\<rparr>]"
    by (simp add: id example_server_def example_db_def)
  from inst other have stays: "still_ended
        (db (snd (finishWorkout envs_ok (env_ok ''p'') 9000 (example_view, example_server))))
        (db (serve [(env_ok ''q'', Some ''tok-alice'',
                     PATCH_workouts ''w-1'' (end_time_only 9900))]
               (snd (run [Select_routine ''r-push'', Invoke (Start (env_ok ''w-2'') 9500),
                          Resume 0 (env_ok ''r'') 0, Next_exercise envs_ok]
                       (finishWorkout envs_ok (env_ok ''p'') 9000
                          (example_view, example_server))))))"
    by blast
  from stays rows have row: "w_end_time
        (workouts
           (db (serve [(env_ok ''q'', Some ''tok-alice'',
                        PATCH_workouts ''w-1'' (end_time_only 9900))]
                  (snd (run [Select_routine ''r-push'', Invoke (Start (env_ok ''w-2'') 9500),
                             Resume 0 (env_ok ''r'') 0, Next_exercise envs_ok]
                          (finishWorkout envs_ok (env_ok ''p'') 9000
                             (example_view, example_server)))))) ! 0) \<noteq> None"
    unfolding still_ended_iff by simp
  have starts: "map w_start_time (workouts (db example_server)) = [1000]"
    by (simp add: example_server_def example_db_def)
  have clock: "\<forall>w \<in> set (workouts (db example_server)).
                 w_id w = aw_id example_workout \<longrightarrow> w_start_time w \<le> 9000"
    by (simp add: example_server_def example_db_def)
  from inst clock
  have "\<forall>w \<in> set (workouts (db (snd (finishWorkout envs_ok (env_ok ''p'') 9000
                                          (example_view, example_server))))).
          w_id w = aw_id example_workout \<longrightarrow> (\<exists>t. w_end_time w = Some t \<and> w_start_time w \<le> t)"
    by blast
  moreover have "workouts (db (snd (finishWorkout envs_ok (env_ok ''p'') 9000
                                     (example_view, example_server)))) ! 0
      \<in> set (workouts (db (snd (finishWorkout envs_ok (env_ok ''p'') 9000
                                     (example_view, example_server)))))"
    "w_id (workouts (db (snd (finishWorkout envs_ok (env_ok ''p'') 9000
                                     (example_view, example_server)))) ! 0)
       = aw_id example_workout"
    by (simp_all add: rows id)
  ultimately have order: "\<exists>t. w_end_time
               (workouts (db (snd (finishWorkout envs_ok (env_ok ''p'') 9000
                                     (example_view, example_server)))) ! 0) = Some t
           \<and> w_start_time
               (workouts (db (snd (finishWorkout envs_ok (env_ok ''p'') 9000
                                     (example_view, example_server)))) ! 0) \<le> t"
    by blast
  have sets: "workout_sets (db (snd (finishWorkout envs_ok (env_ok ''p'') 9000
                               (example_view, example_server))))
       = [\<lparr>s_id = ''s-1'', s_workout_id = ''w-1'', s_exercise_name = ''Bench'',
           s_weight = 135, s_reps = 5, s_rpe = 7, s_set_number = 1\<rparr>]"
    by (simp only: finish_example snd_conv) (simp add: example_db_def)
  from pk active gone starts rows order sets stays row show ?thesis
    by (intro conjI)
qed

end
